theory Spec2Isabelle
  imports Complex_Main "HOL-Library.Log_Nat"
begin

section \<open>Python values used by vertex.py\<close>

text \<open>
  The exceptions that the built-ins used by the script can raise.  \<open>RequestException\<close>
  stands for \<open>requests.exceptions.RequestException\<close> and its subclasses (connection
  errors, HTTP status errors raised by \<open>raise_for_status\<close>, JSON decoding errors of
  \<open>response.json()\<close>); \<open>KeyError\<close> carries the missing key.  \<open>TypeError\<close>,
  \<open>AttributeError\<close> and \<open>OverflowError\<close> are what \<open>float(x)\<close>, \<open>x.get(...)\<close> and
  \<open>x.items()\<close> raise on a value of the wrong kind.
\<close>

datatype pyerr =
    ValueError
  | ZeroDivisionError
  | KeyError string
  | OSError
  | RequestException
  | TypeError
  | AttributeError
  | OverflowError

subsection \<open>\<open>range\<close> and list slicing\<close>

text \<open>
  \<open>range(start, stop, step)\<close> on integers: a zero step raises \<open>ValueError\<close>, the number
  of elements is \<open>max 0 ((stop - start + step - 1) // step)\<close> for a positive step and
  symmetrically for a negative one.
\<close>

definition py_range :: "int \<Rightarrow> int \<Rightarrow> int \<Rightarrow> pyerr + int list" where
  "py_range start stop step =
     (if step = 0 then Inl ValueError
      else if 0 < step
        then Inr (map (\<lambda>j. start + int j * step) [0 ..< nat ((stop - start + step - 1) div step)])
        else Inr (map (\<lambda>j. start + int j * step) [0 ..< nat ((start - stop - step - 1) div (- step))]))"

text \<open>
  A slice bound of \<open>lst[lo:hi]\<close>: a negative bound counts from the end, and every bound
  is clamped to \<open>0 .. len(lst)\<close>.  Slicing never raises.
\<close>

definition slice_bound :: "nat \<Rightarrow> int \<Rightarrow> nat" where
  "slice_bound n i = (if i < 0 then nat (max 0 (int n + i)) else min n (nat i))"

definition py_slice :: "'a list \<Rightarrow> int \<Rightarrow> int \<Rightarrow> 'a list" where
  "py_slice lst lo hi =
     (let a = slice_bound (length lst) lo; b = slice_bound (length lst) hi
      in take (b - a) (drop a lst))"

subsection \<open>Floats\<close>

text \<open>
  A Python \<open>float\<close> is an IEEE 754 binary64 value: a finite value, which is a rational
  number, an infinity, or a NaN.  The two zeros are one value here: they are equal under
  \<open>==\<close> and \<open><\<close>, and the script never divides by a float it computed.
\<close>

datatype pyfloat = Finite rat | PosInf | NegInf | NaN

text \<open>For \<open>q > 0\<close>, the exponent \<open>e\<close> with \<open>2 ^ e \<le> q < 2 ^ (e + 1)\<close>.\<close>

definition floor_log2 :: "rat \<Rightarrow> int" where
  "floor_log2 q =
     (let (n, d) = quotient_of q; k = bitlen n - bitlen d
      in if 2 powi k \<le> q then k else k - 1)"

definition round_half_even :: "rat \<Rightarrow> int" where
  "round_half_even q =
     (let f = \<lfloor>q\<rfloor>; r = q - of_int f
      in if r < 1 / 2 then f else if 1 / 2 < r then f + 1 else if even f then f else f + 1)"

text \<open>
  Rounding of an exact result to binary64, to nearest with ties to even: 53 significant
  bits, the least exponent \<open>-1022\<close> (below it the spacing stays \<open>2 ^ -1074\<close>), and a
  rounded magnitude of \<open>2 ^ 1024\<close> is an infinity.
\<close>

definition round_double :: "rat \<Rightarrow> pyfloat" where
  "round_double q =
     (if q = 0 then Finite 0
      else let e = max (floor_log2 \<bar>q\<bar>) (- 1022);
               ulp = 2 powi (e - 52);
               r = of_int (round_half_even (q / ulp)) * ulp
           in if 2 ^ 1024 \<le> r then PosInf
              else if r \<le> - (2 ^ 1024) then NegInf
              else Finite r)"

text \<open>
  \<open>x / y\<close> on floats raises \<open>ZeroDivisionError\<close> for a zero divisor, whatever \<open>x\<close> is.
\<close>

fun float_div :: "pyfloat \<Rightarrow> pyfloat \<Rightarrow> pyerr + pyfloat" where
  "float_div x (Finite b) =
     (if b = 0 then Inl ZeroDivisionError
      else case x of
          Finite a \<Rightarrow> Inr (round_double (a / b))
        | PosInf \<Rightarrow> Inr (if 0 < b then PosInf else NegInf)
        | NegInf \<Rightarrow> Inr (if 0 < b then NegInf else PosInf)
        | NaN \<Rightarrow> Inr NaN)"
| "float_div (Finite a) PosInf = Inr (Finite 0)"
| "float_div (Finite a) NegInf = Inr (Finite 0)"
| "float_div x y = Inr NaN"

fun float_mul :: "pyfloat \<Rightarrow> pyfloat \<Rightarrow> pyfloat" where
  "float_mul (Finite a) (Finite b) = round_double (a * b)"
| "float_mul NaN y = NaN"
| "float_mul x NaN = NaN"
| "float_mul (Finite a) PosInf = (if a = 0 then NaN else if 0 < a then PosInf else NegInf)"
| "float_mul (Finite a) NegInf = (if a = 0 then NaN else if 0 < a then NegInf else PosInf)"
| "float_mul PosInf (Finite b) = (if b = 0 then NaN else if 0 < b then PosInf else NegInf)"
| "float_mul NegInf (Finite b) = (if b = 0 then NaN else if 0 < b then NegInf else PosInf)"
| "float_mul PosInf PosInf = PosInf"
| "float_mul PosInf NegInf = NegInf"
| "float_mul NegInf PosInf = NegInf"
| "float_mul NegInf NegInf = PosInf"

fun float_add :: "pyfloat \<Rightarrow> pyfloat \<Rightarrow> pyfloat" where
  "float_add (Finite a) (Finite b) = round_double (a + b)"
| "float_add NaN y = NaN"
| "float_add x NaN = NaN"
| "float_add PosInf NegInf = NaN"
| "float_add NegInf PosInf = NaN"
| "float_add PosInf y = PosInf"
| "float_add NegInf y = NegInf"
| "float_add x PosInf = PosInf"
| "float_add x NegInf = NegInf"

text \<open>The comparisons \<open><\<close> and \<open><=\<close>: false as soon as one side is a NaN.\<close>

fun float_lt :: "pyfloat \<Rightarrow> pyfloat \<Rightarrow> bool" where
  "float_lt NaN y = False"
| "float_lt x NaN = False"
| "float_lt (Finite a) (Finite b) = (a < b)"
| "float_lt x NegInf = False"
| "float_lt PosInf y = False"
| "float_lt NegInf y = True"
| "float_lt x PosInf = True"

fun float_le :: "pyfloat \<Rightarrow> pyfloat \<Rightarrow> bool" where
  "float_le NaN y = False"
| "float_le x NaN = False"
| "float_le (Finite a) (Finite b) = (a \<le> b)"
| "float_le NegInf y = True"
| "float_le x PosInf = True"
| "float_le x NegInf = False"
| "float_le PosInf y = False"

text \<open>
  \<open>sum(xs)\<close> over floats: the running total starts at the integer \<open>0\<close> and each element is
  added to it from left to right.  (From CPython 3.12 on, \<open>sum\<close> carries a compensation
  term beside the total, which can change the last bit of the result; nothing below
  depends on the bits of a sum.)
\<close>

definition py_sum :: "pyfloat list \<Rightarrow> pyfloat" where
  "py_sum xs = foldl float_add (Finite 0) xs"

subsection \<open>Strings, \<open>int(s)\<close>, \<open>str(i)\<close> and \<open>float(s)\<close>\<close>

text \<open>
  Strings are ASCII.  \<open>int\<close> and \<open>float\<close> strip the white space \<open>' \t\n\v\f\r'\<close> at
  both ends of their argument.
\<close>

definition is_space :: "char \<Rightarrow> bool" where
  "is_space c = (c \<in> set [CHR 0x20, CHR 0x09, CHR 0x0A, CHR 0x0B, CHR 0x0C, CHR 0x0D])"

definition strip :: "string \<Rightarrow> string" where
  "strip s = rev (dropWhile is_space (rev (dropWhile is_space s)))"

definition is_digit :: "char \<Rightarrow> bool" where
  "is_digit c = (48 \<le> (of_char c :: nat) \<and> (of_char c :: nat) \<le> 57)"

definition digit_val :: "char \<Rightarrow> nat" where
  "digit_val c = of_char c - 48"

text \<open>
  The grammar's \<open>digitpart ::= digit (["_"] digit)*\<close>: digits, with single underscores
  between digits only.
\<close>

fun digitpart :: "string \<Rightarrow> bool" where
  "digitpart [] = False"
| "digitpart [c] = is_digit c"
| "digitpart (c # d # cs) =
     (is_digit c \<and> (if d = CHR ''_'' then digitpart cs else digitpart (d # cs)))"

definition digits_value :: "string \<Rightarrow> nat" where
  "digits_value s = foldl (\<lambda>a c. 10 * a + digit_val c) 0 (filter is_digit s)"

text \<open>An optional sign: whether it is \<open>-\<close>, and the rest.\<close>

fun split_sign :: "string \<Rightarrow> bool \<times> string" where
  "split_sign [] = (False, [])"
| "split_sign (c # cs) =
     (if c = CHR ''-'' then (True, cs) else if c = CHR ''+'' then (False, cs) else (False, c # cs))"

text \<open>
  \<open>int(s)\<close> for a string, in base 10: \<open>ValueError\<close> unless the stripped string is an
  optional sign and a \<open>digitpart\<close>.  CPython from 3.11 on also raises \<open>ValueError\<close> when
  there are more digits than \<open>sys.get_int_max_str_digits()\<close>, 4300 unless configured.
\<close>

definition int_max_str_digits :: nat where
  "int_max_str_digits = 4300"

definition py_int :: "string \<Rightarrow> pyerr + int" where
  "py_int s =
     (case split_sign (strip s) of (neg, body) \<Rightarrow>
        if digitpart body \<and> length (filter is_digit body) \<le> int_max_str_digits
        then Inr (if neg then - int (digits_value body) else int (digits_value body))
        else Inl ValueError)"

text \<open>\<open>str(i)\<close> for an integer: its decimal digits, after a \<open>-\<close> when negative.\<close>

fun nat_digits :: "nat \<Rightarrow> string" where
  "nat_digits n =
     (if n < 10 then [char_of (48 + n)]
      else nat_digits (n div 10) @ [char_of (48 + n mod 10)])"

definition str_int :: "int \<Rightarrow> string" where
  "str_int i = (if i < 0 then CHR ''-'' # nat_digits (nat (- i)) else nat_digits (nat i))"

text \<open>
  \<open>float(s)\<close> for a string.  After stripping and an optional sign: \<open>inf\<close>, \<open>infinity\<close>
  or \<open>nan\<close> in any case, or
  \<^verbatim>\<open>
  number      ::= [digitpart] "." digitpart | digitpart ["."]
  floatnumber ::= number [("e" | "E") ["+" | "-"] digitpart]
  \<close>
  whose decimal value is rounded to the nearest float; anything else is a \<open>ValueError\<close>.
\<close>

definition lower :: "char \<Rightarrow> char" where
  "lower c = (if 65 \<le> (of_char c :: nat) \<and> (of_char c :: nat) \<le> 90
              then char_of ((of_char c :: nat) + 32) else c)"

text \<open>Splitting at the first character that satisfies \<open>P\<close>, if there is one.\<close>

definition split_at :: "(char \<Rightarrow> bool) \<Rightarrow> string \<Rightarrow> string \<times> string option" where
  "split_at P s =
     (case dropWhile (\<lambda>c. \<not> P c) s of
        [] \<Rightarrow> (s, None)
      | _ # rest \<Rightarrow> (takeWhile (\<lambda>c. \<not> P c) s, Some rest))"

text \<open>The \<open>number\<close> of the grammar: its digits as a natural number and how many follow the point.\<close>

definition parse_number :: "string \<Rightarrow> (nat \<times> nat) option" where
  "parse_number s =
     (case split_at (\<lambda>c. c = CHR ''.'') s of
        (ip, None) \<Rightarrow> if digitpart ip then Some (digits_value ip, 0) else None
      | (ip, Some fp) \<Rightarrow>
          if (ip = [] \<or> digitpart ip) \<and> (fp = [] \<or> digitpart fp) \<and> \<not> (ip = [] \<and> fp = [])
          then Some (digits_value (ip @ fp), length (filter is_digit fp))
          else None)"

definition parse_exponent :: "string \<Rightarrow> int option" where
  "parse_exponent s =
     (case split_sign s of (neg, body) \<Rightarrow>
        if digitpart body
        then Some (if neg then - int (digits_value body) else int (digits_value body))
        else None)"

text \<open>A \<open>floatnumber\<close> as a pair \<open>(m, e)\<close> that stands for \<open>m * 10 ^ e\<close>.\<close>

definition parse_floatnumber :: "string \<Rightarrow> (nat \<times> int) option" where
  "parse_floatnumber s =
     (case split_at (\<lambda>c. c = CHR ''e'' \<or> c = CHR ''E'') s of
        (num, None) \<Rightarrow>
          (case parse_number num of None \<Rightarrow> None | Some (m, k) \<Rightarrow> Some (m, - int k))
      | (num, Some ex) \<Rightarrow>
          (case parse_number num of
             None \<Rightarrow> None
           | Some (m, k) \<Rightarrow>
               (case parse_exponent ex of None \<Rightarrow> None | Some e \<Rightarrow> Some (m, e - int k))))"

definition py_float :: "string \<Rightarrow> pyerr + pyfloat" where
  "py_float s =
     (case split_sign (strip s) of (neg, body) \<Rightarrow>
        if map lower body = ''inf'' \<or> map lower body = ''infinity''
          then Inr (if neg then NegInf else PosInf)
        else if map lower body = ''nan'' then Inr NaN
        else (case parse_floatnumber body of
                None \<Rightarrow> Inl ValueError
              | Some (m, e) \<Rightarrow>
                  Inr (round_double ((if neg then - of_nat m else of_nat m) * (10 powi e)))))"

subsection \<open>The values of a decoded JSON document\<close>

text \<open>
  What \<open>response.json()\<close> returns: \<open>None\<close>, a \<open>bool\<close>, an \<open>int\<close>, a \<open>float\<close> (the decoder
  accepts \<open>NaN\<close> and \<open>Infinity\<close>), a \<open>str\<close>, a \<open>list\<close> or a \<open>dict\<close> with string keys, in
  the order of the document.
\<close>

datatype json =
    JNull
  | JBool bool
  | JInt int
  | JFloat pyfloat
  | JStr string
  | JList "json list"
  | JObj "(string \<times> json) list"

text \<open>
  \<open>float(x)\<close> on such a value.  A string is parsed; a \<open>float\<close> is returned as it is; an
  \<open>int\<close>, and a \<open>bool\<close> as the integer it is, is rounded to the nearest float, with
  \<open>OverflowError\<close> when it is too large for a float; \<open>None\<close>, a list and a dictionary
  raise \<open>TypeError\<close>.
\<close>

definition int_to_float :: "int \<Rightarrow> pyerr + pyfloat" where
  "int_to_float i =
     (case round_double (of_int i) of
        Finite r \<Rightarrow> Inr (Finite r)
      | PosInf \<Rightarrow> Inl OverflowError
      | NegInf \<Rightarrow> Inl OverflowError
      | NaN \<Rightarrow> Inl OverflowError)"

fun py_float_value :: "json \<Rightarrow> pyerr + pyfloat" where
  "py_float_value (JStr s) = py_float s"
| "py_float_value (JFloat x) = Inr x"
| "py_float_value (JInt i) = int_to_float i"
| "py_float_value (JBool b) = int_to_float (if b then 1 else 0)"
| "py_float_value JNull = Inl TypeError"
| "py_float_value (JList xs) = Inl TypeError"
| "py_float_value (JObj fields) = Inl TypeError"

text \<open>
  \<open>x.get(key, default)\<close> and \<open>x.items()\<close>: methods of a \<open>dict\<close>; on any other value of a
  JSON document the attribute lookup raises \<open>AttributeError\<close>.
\<close>

fun json_get :: "json \<Rightarrow> string \<Rightarrow> json \<Rightarrow> pyerr + json" where
  "json_get (JObj fields) key fallback =
     Inr (case map_of fields key of None \<Rightarrow> fallback | Some v \<Rightarrow> v)"
| "json_get x key fallback = Inl AttributeError"

fun json_items :: "json \<Rightarrow> pyerr + (string \<times> json) list" where
  "json_items (JObj fields) = Inr fields"
| "json_items x = Inl AttributeError"

subsection \<open>Dictionaries\<close>

text \<open>
  A \<open>dict\<close> keeps its keys in insertion order, which the script observes when it lists
  the product ids and when it sorts the averages: it is a list of pairs with distinct
  keys.  \<open>d[k] = v\<close> overwrites the value of a key that is present, in place, and adds
  a new key at the end; \<open>d.get(k)\<close> is \<open>map_of d k\<close>.
\<close>

fun dict_set :: "'k \<Rightarrow> 'v \<Rightarrow> ('k \<times> 'v) list \<Rightarrow> ('k \<times> 'v) list" where
  "dict_set k v [] = [(k, v)]"
| "dict_set k v ((k', v') # d) =
     (if k' = k then (k, v) # d else (k', v') # dict_set k v d)"

text \<open>A loop whose body may raise: the first error ends it.\<close>

fun fold_err :: "('a \<Rightarrow> 's \<Rightarrow> pyerr + 's) \<Rightarrow> 'a list \<Rightarrow> 's \<Rightarrow> pyerr + 's" where
  "fold_err f [] s = Inr s"
| "fold_err f (x # xs) s = (case f x s of Inl e \<Rightarrow> Inl e | Inr s' \<Rightarrow> fold_err f xs s')"

text \<open>
  \<open>sorted(xs, key=key, reverse=True)\<close> on float keys: a stable sort into descending
  key order that compares keys with \<open><\<close> only.  Each element, from the last to the
  first, is put in front of the sorted rest and moved behind the elements whose key is
  strictly greater.  The result of Python's sort does not depend on its algorithm when
  \<open><\<close> orders the keys, that is when no key is a NaN, and this is what the definition
  gives.  With a NaN key the result of CPython depends on its algorithm: it reverses the
  list, keeps the longest run at its start in which no key is \<open><\<close> the one before it,
  merges the rest in, and reverses the list again.  So CPython returns a list in which
  no key is \<open><\<close> the key after it as it is, and so does the definition, which compares
  each element with the one after it first; on other lists with NaN keys the definition
  is not meant to say what CPython returns.
\<close>

fun insort_desc :: "('a \<Rightarrow> pyfloat) \<Rightarrow> 'a \<Rightarrow> 'a list \<Rightarrow> 'a list" where
  "insort_desc key x [] = [x]"
| "insort_desc key x (y # ys) =
     (if float_lt (key x) (key y) then y # insort_desc key x ys else x # y # ys)"

definition sorted_reverse :: "('a \<Rightarrow> pyfloat) \<Rightarrow> 'a list \<Rightarrow> 'a list" where
  "sorted_reverse key xs = foldr (insort_desc key) xs []"

section \<open>Batch Planner: \<open>chunk_list\<close>\<close>

text \<open>
  \<^verbatim>\<open>
  def chunk_list(lst, chunk_size):
      for i in range(0, len(lst), chunk_size):
          yield lst[i:i + chunk_size]
  \<close>
  The generator is modelled by the list of the chunks it yields; the \<open>ValueError\<close> of
  \<open>range\<close> for a zero step is the error result.
\<close>

definition chunk_list :: "'a list \<Rightarrow> int \<Rightarrow> pyerr + 'a list list" where
  "chunk_list lst chunk_size =
     (case py_range 0 (int (length lst)) chunk_size of
        Inl e \<Rightarrow> Inl e
      | Inr is \<Rightarrow> Inr (map (\<lambda>i. py_slice lst i (i + chunk_size)) is))"

section \<open>The state of a run and its environment\<close>

text \<open>
  One record of the assets response.  A field is \<open>None\<close> when the JSON object has no
  such key: \<open>item["product_id"]\<close> then raises \<open>KeyError\<close>.
\<close>

record asset =
  product_id :: "int option"
  ticker_id :: "string option"

text \<open>
  The elements of \<open>snapshots\<close> in the archive response are values of a decoded JSON
  document, of any shape.  The shape that the archive documents is an object with an
  integer \<open>timestamp\<close> and an object \<open>funding_rates\<close> from product-id strings to raw
  rate strings, in the order of the response; either key may be absent.  The record is
  a snapshot of that shape, \<open>snapshot_json\<close> the value it is in the response, and
  \<open>timestamp_json\<close> what \<open>snapshot.get("timestamp")\<close> then returns.
\<close>

record snapshot =
  timestamp :: "int option"
  funding_rates :: "(string \<times> string) list option"

definition timestamp_json :: "int option \<Rightarrow> json" where
  "timestamp_json ts = (case ts of None \<Rightarrow> JNull | Some t \<Rightarrow> JInt t)"

definition snapshot_json :: "snapshot \<Rightarrow> json" where
  "snapshot_json snap =
     JObj ((case timestamp snap of None \<Rightarrow> [] | Some t \<Rightarrow> [(''timestamp'', JInt t)])
           @ (case funding_rates snap of
                None \<Rightarrow> []
              | Some rates \<Rightarrow> [(''funding_rates'', JObj (map (\<lambda>(k, r). (k, JStr r)) rates))]))"

text \<open>What \<open>process_funding_rates\<close> appends: \<open>{"timestamp": ..., "funding_rate": ...}\<close>.\<close>

record funding_entry =
  entry_timestamp :: json
  funding_rate :: pyfloat

type_synonym funding_data = "(string \<times> funding_entry list) list"

text \<open>The \<open>market_snapshots\<close> payload posted to the archive endpoint.\<close>

record payload =
  p_count :: int
  p_granularity :: int
  p_max_time :: int
  p_product_ids :: "int list"

text \<open>
  The outcome of \<open>requests.get\<close> or \<open>requests.post\<close>, \<open>raise_for_status()\<close> and
  \<open>response.json()\<close> together: a \<open>RequestException\<close>, or the decoded body.
\<close>

datatype 'a fetched = RequestFailed | Json 'a

text \<open>What the script prints, and the lines of \<open>vertexrates.txt\<close>, before formatting.\<close>

datatype event =
    MappingUpdated
  | NoNewMapping
  | ErrorFetchingSymbols
  | UsingProductIds "int list"
  | MaxBatchSize int
  | FetchingBatch "int list"
  | ErrorFetchingRates "int list"
  | Slept
  | NoSnapshotsRetrieved
  | DebugFirstSnapshot json
  | ResultLine string pyfloat

datatype report_line = Header | Separator | Row string pyfloat

text \<open>
  The environment of a run: the body of the assets endpoint, the answer of the archive
  endpoint to the \<open>i\<close>-th post, the value of \<open>int(time.time())\<close> at the \<open>i\<close>-th post,
  and whether opening the report for writing fails.
\<close>

record world =
  assets_reply :: "asset list fetched"
  archive_reply :: "nat \<Rightarrow> payload \<Rightarrow> json list option fetched"
  clock :: "nat \<Rightarrow> int"
  open_fails :: bool

text \<open>
  The state: the global \<open>PRODUCT_MAPPING\<close>, what has been printed, the payloads
  posted so far, and the content of \<open>vertexrates.txt\<close> (\<open>None\<close> while there is no file).
\<close>

record state =
  PRODUCT_MAPPING :: "(int \<times> string) list"
  stdout :: "event list"
  posted :: "payload list"
  report_file :: "report_line list option"

definition print :: "event \<Rightarrow> state \<Rightarrow> state" where
  "print ev st = st\<lparr>stdout := stdout st @ [ev]\<rparr>"

section \<open>Mapping Loader: \<open>update_product_mapping\<close>\<close>

text \<open>
  \<^verbatim>\<open>
  new_mapping = {item["product_id"]: item["ticker_id"] for item in symbols}
  \<close>
  The comprehension evaluates the key, then the value, of each item in turn and stores
  the pair; a missing field raises \<open>KeyError\<close> and nothing is returned.
\<close>

fun build_mapping :: "asset list \<Rightarrow> (int \<times> string) list \<Rightarrow> pyerr + (int \<times> string) list" where
  "build_mapping [] acc = Inr acc"
| "build_mapping (item # symbols) acc =
     (case product_id item of
        None \<Rightarrow> Inl (KeyError ''product_id'')
      | Some k \<Rightarrow>
          (case ticker_id item of
             None \<Rightarrow> Inl (KeyError ''ticker_id'')
           | Some v \<Rightarrow> build_mapping symbols (dict_set k v acc)))"

text \<open>
  \<^verbatim>\<open>
  try:
      response = requests.get(ASSETS_ENDPOINT)
      response.raise_for_status()
      symbols = response.json()
      new_mapping = {item["product_id"]: item["ticker_id"] for item in symbols}
      if set(new_mapping.keys()) != set(PRODUCT_MAPPING.keys()):
          print("Product mapping updated.")
          PRODUCT_MAPPING = new_mapping
      else:
          print("No new product mapping found.")
  except requests.exceptions.RequestException as e:
      print("Error fetching product symbols:", e)
  \<close>
  The result is the exception that leaves the function, if any, and the state it leaves.
\<close>

definition update_product_mapping :: "asset list fetched \<Rightarrow> state \<Rightarrow> pyerr option \<times> state" where
  "update_product_mapping reply st =
     (case reply of
        RequestFailed \<Rightarrow> (None, print ErrorFetchingSymbols st)
      | Json symbols \<Rightarrow>
          (case build_mapping symbols [] of
             Inl e \<Rightarrow> (Some e, st)
           | Inr new_mapping \<Rightarrow>
               if set (map fst new_mapping) \<noteq> set (map fst (PRODUCT_MAPPING st))
               then (None, (print MappingUpdated st)\<lparr>PRODUCT_MAPPING := new_mapping\<rparr>)
               else (None, print NoNewMapping st)))"

section \<open>Snapshot Fetcher: \<open>get_historical_funding_rates\<close>\<close>

text \<open>
  \<^verbatim>\<open>
  current_time = int(time.time())
  rounded_time = current_time - (current_time % 3600) + 5
  \<close>
  Python's \<open>%\<close> on integers is the floor remainder, as \<open>mod\<close> on \<open>int\<close> is.
\<close>

definition rounded_time :: "int \<Rightarrow> int" where
  "rounded_time current_time = current_time - (current_time mod 3600) + 5"

definition make_payload :: "int \<Rightarrow> int list \<Rightarrow> int \<Rightarrow> int \<Rightarrow> payload" where
  "make_payload current_time product_ids count granularity =
     \<lparr> p_count = count, p_granularity = granularity,
       p_max_time = rounded_time current_time, p_product_ids = product_ids \<rparr>"

text \<open>
  \<^verbatim>\<open>
  try:
      response = requests.post(ARCHIVE_ENDPOINT, json=payload, headers=headers)
      response.raise_for_status()
      data = response.json()
      return data.get("snapshots", [])
  except requests.exceptions.RequestException as e:
      print(f"Error fetching historical funding rates for product_ids {product_ids}: {e}")
      return []
  \<close>
  The body of the answer is \<open>None\<close> when it has no \<open>snapshots\<close> key.
\<close>

definition get_historical_funding_rates ::
    "world \<Rightarrow> int list \<Rightarrow> int \<Rightarrow> int \<Rightarrow> state \<Rightarrow> json list \<times> state" where
  "get_historical_funding_rates w product_ids count granularity st =
     (let i = length (posted st);
          request = make_payload (clock w i) product_ids count granularity;
          st1 = st\<lparr>posted := posted st @ [request]\<rparr>
      in case archive_reply w i request of
           RequestFailed \<Rightarrow> ([], print (ErrorFetchingRates product_ids) st1)
         | Json data \<Rightarrow> (case data of None \<Rightarrow> ([], st1) | Some snapshots \<Rightarrow> (snapshots, st1)))"

section \<open>Rate Processor: \<open>process_funding_rates\<close>\<close>

text \<open>
  \<^verbatim>\<open>
  try:
      prod_id = int(prod_id_str)
  except ValueError:
      prod_id = prod_id_str
  \<close>
  The product id is an integer or, when the key is not one, the key itself.  Only
  \<open>ValueError\<close> is caught.
\<close>

datatype prod_key = IntId int | StrId string

definition parse_prod_id :: "string \<Rightarrow> pyerr + prod_key" where
  "parse_prod_id prod_id_str =
     (case py_int prod_id_str of
        Inr n \<Rightarrow> Inr (IntId n)
      | Inl e \<Rightarrow> if e = ValueError then Inr (StrId prod_id_str) else Inl e)"

text \<open>
  \<open>PRODUCT_MAPPING.get(prod_id, f"Unknown({prod_id})")\<close>.  The keys of the mapping are
  integers, and a string is never equal to an integer, so a string key is not found.
\<close>

definition str_key :: "prod_key \<Rightarrow> string" where
  "str_key k = (case k of IntId i \<Rightarrow> str_int i | StrId s \<Rightarrow> s)"

definition unknown_label :: "prod_key \<Rightarrow> string" where
  "unknown_label k = ''Unknown('' @ str_key k @ '')''"

definition mapping_get :: "(int \<times> string) list \<Rightarrow> prod_key \<Rightarrow> string option" where
  "mapping_get m k = (case k of IntId i \<Rightarrow> map_of m i | StrId s \<Rightarrow> None)"

definition lookup_ticker :: "(int \<times> string) list \<Rightarrow> prod_key \<Rightarrow> string" where
  "lookup_ticker m prod_id =
     (case mapping_get m prod_id of Some ticker \<Rightarrow> ticker | None \<Rightarrow> unknown_label prod_id)"

text \<open>
  \<^verbatim>\<open>
  try:
      raw_value = float(rate_str)
  except ValueError:
      raw_value = 0.0
  \<close>
  \<open>rate_str\<close> is the value of the item, whatever it is.  Only \<open>ValueError\<close> is caught:
  the \<open>TypeError\<close> and \<open>OverflowError\<close> of \<open>float\<close> end the run.
\<close>

definition parse_raw_value :: "json \<Rightarrow> pyerr + pyfloat" where
  "parse_raw_value rate_str =
     (case py_float_value rate_str of
        Inr x \<Rightarrow> Inr x
      | Inl e \<Rightarrow> if e = ValueError then Inr (Finite 0) else Inl e)"

text \<open>\<open>funding_rate = ((raw_value / 1e18) / 24) * 100\<close>\<close>

definition compute_funding_rate :: "pyfloat \<Rightarrow> pyerr + pyfloat" where
  "compute_funding_rate raw_value =
     (case float_div raw_value (Finite (10 ^ 18)) of
        Inl e \<Rightarrow> Inl e
      | Inr a \<Rightarrow>
          (case float_div a (Finite 24) of
             Inl e \<Rightarrow> Inl e
           | Inr b \<Rightarrow> Inr (float_mul b (Finite 100))))"

text \<open>
  \<^verbatim>\<open>
  if ticker not in funding_data:
      funding_data[ticker] = []
  funding_data[ticker].append({"timestamp": timestamp, "funding_rate": funding_rate})
  \<close>
\<close>

fun append_entry :: "string \<Rightarrow> funding_entry \<Rightarrow> funding_data \<Rightarrow> funding_data" where
  "append_entry ticker entry [] = [(ticker, [entry])]"
| "append_entry ticker entry ((t, es) # fd) =
     (if t = ticker then (t, es @ [entry]) # fd else (t, es) # append_entry ticker entry fd)"

text \<open>
  The body of the inner loop, for one item of \<open>funding_rates.items()\<close>: first the
  ticker and the entry are computed, then the entry is stored.
\<close>

definition make_entry ::
    "(int \<times> string) list \<Rightarrow> json \<Rightarrow> string \<times> json \<Rightarrow> pyerr + (string \<times> funding_entry)" where
  "make_entry mapping ts item =
     (case item of (prod_id_str, rate_str) \<Rightarrow>
        (case parse_prod_id prod_id_str of
           Inl e \<Rightarrow> Inl e
         | Inr prod_id \<Rightarrow>
             (case parse_raw_value rate_str of
                Inl e \<Rightarrow> Inl e
              | Inr raw_value \<Rightarrow>
                  (case compute_funding_rate raw_value of
                     Inl e \<Rightarrow> Inl e
                   | Inr rate \<Rightarrow>
                       Inr (lookup_ticker mapping prod_id,
                            \<lparr> entry_timestamp = ts, funding_rate = rate \<rparr>)))))"

definition process_rate ::
    "(int \<times> string) list \<Rightarrow> json \<Rightarrow> string \<times> json \<Rightarrow> funding_data \<Rightarrow> pyerr + funding_data" where
  "process_rate mapping ts item funding_data =
     (case make_entry mapping ts item of
        Inl e \<Rightarrow> Inl e
      | Inr (ticker, entry) \<Rightarrow> Inr (append_entry ticker entry funding_data))"

text \<open>
  The body of the outer loop, for one snapshot:
  \<^verbatim>\<open>
  timestamp = snapshot.get("timestamp")
  funding_rates = snapshot.get("funding_rates", {})
  for prod_id_str, rate_str in funding_rates.items():
  \<close>
\<close>

definition process_snapshot ::
    "(int \<times> string) list \<Rightarrow> json \<Rightarrow> funding_data \<Rightarrow> pyerr + funding_data" where
  "process_snapshot mapping snap funding_data =
     (case json_get snap ''timestamp'' JNull of
        Inl e \<Rightarrow> Inl e
      | Inr ts \<Rightarrow>
          (case json_get snap ''funding_rates'' (JObj []) of
             Inl e \<Rightarrow> Inl e
           | Inr rates \<Rightarrow>
               (case json_items rates of
                  Inl e \<Rightarrow> Inl e
                | Inr items \<Rightarrow> fold_err (process_rate mapping ts) items funding_data)))"

text \<open>\<open>process_funding_rates\<close> reads the global \<open>PRODUCT_MAPPING\<close>: the first argument.\<close>

definition process_funding_rates ::
    "(int \<times> string) list \<Rightarrow> json list \<Rightarrow> pyerr + funding_data" where
  "process_funding_rates mapping snapshots = fold_err (process_snapshot mapping) snapshots []"

text \<open>
  Two notions to state what the Rate Processor returns on snapshots of the documented
  shape: the items of all snapshots in the
  order in which the two loops visit them, each with the timestamp of its snapshot, and
  the dictionary that storing a list of labelled entries one after the other builds.
\<close>

definition snapshot_items :: "snapshot \<Rightarrow> (int option \<times> string \<times> string) list" where
  "snapshot_items snap =
     map (\<lambda>item. (timestamp snap, item))
       (case funding_rates snap of None \<Rightarrow> [] | Some rates \<Rightarrow> rates)"

definition all_items :: "snapshot list \<Rightarrow> (int option \<times> string \<times> string) list" where
  "all_items snapshots = concat (map snapshot_items snapshots)"

definition store_entries :: "(string \<times> funding_entry) list \<Rightarrow> funding_data \<Rightarrow> funding_data" where
  "store_entries labelled funding_data =
     foldl (\<lambda>fd (ticker, entry). append_entry ticker entry fd) funding_data labelled"

text \<open>The distinct elements of a list in the order of their first occurrence.\<close>

definition first_occurrences :: "'a list \<Rightarrow> 'a list" where
  "first_occurrences xs = foldl (\<lambda>seen x. if x \<in> set seen then seen else seen @ [x]) [] xs"

section \<open>Aggregator and \<open>main\<close>\<close>

text \<open>
  \<^verbatim>\<open>
  average_rates = {}
  for ticker, entries in funding_data.items():
      total_rate = sum(entry['funding_rate'] for entry in entries)
      average_rate = total_rate / 3
      average_rates[ticker] = average_rate
  \<close>
\<close>

definition average_rate_step ::
    "string \<times> funding_entry list \<Rightarrow> (string \<times> pyfloat) list \<Rightarrow> pyerr + (string \<times> pyfloat) list" where
  "average_rate_step item average_rates =
     (case item of (ticker, entries) \<Rightarrow>
        (let total_rate = py_sum (map funding_rate entries)
         in case float_div total_rate (Finite 3) of
              Inl e \<Rightarrow> Inl e
            | Inr average_rate \<Rightarrow> Inr (dict_set ticker average_rate average_rates)))"

definition average_rates :: "funding_data \<Rightarrow> pyerr + (string \<times> pyfloat) list" where
  "average_rates funding_data = fold_err average_rate_step funding_data []"

text \<open>\<open>sorted(average_rates.items(), key=lambda x: x[1], reverse=True)\<close>\<close>

definition sorted_rates :: "(string \<times> pyfloat) list \<Rightarrow> (string \<times> pyfloat) list" where
  "sorted_rates items = sorted_reverse snd items"

text \<open>
  The loop of \<open>main\<close> over the batches:
  \<^verbatim>\<open>
  for batch in chunk_list(product_ids, max_batch_size):
      print("Fetching snapshots for batch:", batch)
      snapshots = get_historical_funding_rates(batch, count=count, granularity=3600)
      if snapshots:
          all_snapshots.extend(snapshots)
      time.sleep(0.5)
  \<close>
\<close>

fun fetch_batches ::
    "world \<Rightarrow> int \<Rightarrow> int list list \<Rightarrow> json list \<Rightarrow> state \<Rightarrow> json list \<times> state" where
  "fetch_batches w count [] all_snapshots st = (all_snapshots, st)"
| "fetch_batches w count (batch # batches) all_snapshots st =
     (case get_historical_funding_rates w batch count 3600 (print (FetchingBatch batch) st) of
        (snapshots, st1) \<Rightarrow>
          fetch_batches w count batches
            (if snapshots \<noteq> [] then all_snapshots @ snapshots else all_snapshots)
            (print Slept st1))"

text \<open>The report and the echo of the ranked list.\<close>

definition report :: "(string \<times> pyfloat) list \<Rightarrow> report_line list" where
  "report rates = Header # Separator # map (\<lambda>(ticker, avg). Row ticker avg) rates"

definition print_rates :: "(string \<times> pyfloat) list \<Rightarrow> state \<Rightarrow> state" where
  "print_rates rates st = st\<lparr>stdout := stdout st @ map (\<lambda>(ticker, avg). ResultLine ticker avg) rates\<rparr>"

text \<open>
  \<open>main\<close>: the exception that ends the run, if any, and the final state.  An exception
  that no \<open>except\<close> clause catches ends the run where it is raised.
\<close>

definition main :: "world \<Rightarrow> state \<Rightarrow> pyerr option \<times> state" where
  "main w st0 =
     (case update_product_mapping (assets_reply w) st0 of
        (Some e, st1) \<Rightarrow> (Some e, st1)
      | (None, st1) \<Rightarrow>
          (let product_ids = map fst (PRODUCT_MAPPING st1);
               st2 = print (UsingProductIds product_ids) st1;
               count = 72;
               max_batch_size = 2000 div count;
               st3 = print (MaxBatchSize max_batch_size) st2
           in case chunk_list product_ids max_batch_size of
                Inl e \<Rightarrow> (Some e, st3)
              | Inr batches \<Rightarrow>
                  (case fetch_batches w count batches [] st3 of
                     (all_snapshots, st4) \<Rightarrow>
                       (case all_snapshots of
                          [] \<Rightarrow> (None, print NoSnapshotsRetrieved st4)
                        | first # _ \<Rightarrow>
                            (let st5 = print (DebugFirstSnapshot first) st4
                             in case process_funding_rates (PRODUCT_MAPPING st5) all_snapshots of
                                  Inl e \<Rightarrow> (Some e, st5)
                                | Inr funding_data \<Rightarrow>
                                    (case average_rates funding_data of
                                       Inl e \<Rightarrow> (Some e, st5)
                                     | Inr averages \<Rightarrow>
                                         (let ranked = sorted_rates averages
                                          in if open_fails w then (Some OSError, st5)
                                             else (None, print_rates ranked
                                                     (st5\<lparr>report_file := Some (report ranked)\<rparr>)))))))))"

section \<open>The start of a run and two environments\<close>

text \<open>At import time \<open>PRODUCT_MAPPING = {}\<close>; nothing is printed, posted or written yet.\<close>

definition initial_state :: state where
  "initial_state = \<lparr> PRODUCT_MAPPING = [], stdout = [], posted = [], report_file = None \<rparr>"

text \<open>
  An environment one hour and one minute after the epoch, in which the assets endpoint
  lists one product and the archive has no snapshot for any request.
\<close>

definition empty_archive_world :: world where
  "empty_archive_world =
     \<lparr> assets_reply = Json [\<lparr> product_id = Some 2, ticker_id = Some ''BTC-PERP_USDC'' \<rparr>],
       archive_reply = (\<lambda>i request. Json (Some [])),
       clock = (\<lambda>i. 3660),
       open_fails = False \<rparr>"

section \<open>Properties of the Batch Planner\<close>

lemma concat_chunks_take:
  "concat (map (\<lambda>j. take k (drop (j * k) xs)) [0 ..< m]) = take (m * k) xs"
proof (induction m)
  case 0
  show ?case by simp
next
  case (Suc m)
  have "take (m * k) xs @ take k (drop (m * k) xs) = take (m * k + k) xs"
    by (simp add: take_add)
  with Suc show ?case by (simp add: add.commute)
qed

lemma slice_bound_nat: "slice_bound n (int i) = min n i"
  by (simp add: slice_bound_def)

lemma chunk_list_pos:
  assumes "0 < k"
  shows "chunk_list xs (int k) =
           Inr (map (\<lambda>j. take k (drop (j * k) xs)) [0 ..< (length xs + k - 1) div k])"
proof -
  have "int (length xs) + int k - 1 = int (length xs + k - 1)"
    using assms by simp
  then have n: "nat ((int (length xs) + int k - 1) div int k) = (length xs + k - 1) div k"
    by (simp add: zdiv_int [symmetric] del: of_nat_add of_nat_diff)
  have s: "py_slice xs (int j * int k) (int j * int k + int k) = take k (drop (j * k) xs)" for j
  proof -
    have a: "slice_bound (length xs) (int j * int k) = min (length xs) (j * k)"
      using slice_bound_nat [of "length xs" "j * k"] by simp
    have b: "slice_bound (length xs) (int j * int k + int k) = min (length xs) (j * k + k)"
      using slice_bound_nat [of "length xs" "j * k + k"] by simp
    show ?thesis
    proof (cases "j * k \<le> length xs")
      case True
      then have "take (min (length xs) (j * k + k) - j * k) (drop (j * k) xs)
                 = take k (drop (j * k) xs)"
        by (cases "j * k + k \<le> length xs") (simp_all add: min_def)
      with True show ?thesis by (simp add: py_slice_def a b min_def)
    next
      case False
      then show ?thesis by (simp add: py_slice_def a b min_def)
    qed
  qed
  show ?thesis
    using assms by (simp add: chunk_list_def py_range_def n s comp_def)
qed


text \<open>
  C3.  For every list and every batch size \<open>k \<ge> 1\<close>, \<open>chunk_list\<close> does not raise and
  yields \<open>ceil(len / k)\<close> slices; slice number \<open>j\<close> is the \<open>k\<close> elements of the input
  from position \<open>j * k\<close> on (consecutive, non-overlapping, in input order); the
  concatenation of the slices is the input; every slice but the last has exactly \<open>k\<close>
  elements, the last one between \<open>1\<close> and \<open>k\<close>; the empty input yields no slice.
\<close>

theorem chunk_list_partition:
  assumes "1 \<le> k"
  shows "\<exists>cs. chunk_list xs k = Inr cs
           \<and> length cs = (length xs + nat k - 1) div nat k
           \<and> (\<forall>j < length cs. cs ! j = take (nat k) (drop (j * nat k) xs))
           \<and> concat cs = xs
           \<and> (\<forall>j. Suc j < length cs \<longrightarrow> length (cs ! j) = nat k)
           \<and> (cs \<noteq> [] \<longrightarrow> 1 \<le> length (last cs) \<and> length (last cs) \<le> nat k)
           \<and> (xs = [] \<longrightarrow> cs = [])"
proof -
  define K where "K = nat k"
  define m where "m = (length xs + K - 1) div K"
  define cs where "cs = map (\<lambda>j. take K (drop (j * K) xs)) [0 ..< m]"
  have K: "0 < K" "int K = k" using assms by (simp_all add: K_def)
  have run: "chunk_list xs k = Inr cs"
    using chunk_list_pos [OF K(1), of xs] K(2) by (simp add: cs_def m_def)
  have len: "length cs = m" by (simp add: cs_def)
  have nth: "cs ! j = take K (drop (j * K) xs)" if "j < m" for j
    using that by (simp add: cs_def)
  have cover: "length xs \<le> m * K"
  proof -
    have "length xs + K - 1 < ((length xs + K - 1) div K + 1) * K"
      using K(1) by (metis Suc_eq_plus1 dividend_less_div_times mult.commute mult_Suc)
    then show ?thesis using K(1) by (simp add: m_def)
  qed
  have below: "j * K < length xs" if "j < m" for j
  proof -
    have "Suc j \<le> (length xs + K - 1) div K" using that by (simp add: m_def)
    then have "Suc j * K \<le> length xs + K - 1"
      using K(1) by (simp add: less_eq_div_iff_mult_less_eq)
    then show ?thesis using K(1) by simp
  qed
  have full: "length (cs ! j) = K" if "Suc j < m" for j
  proof -
    have "Suc j * K < length xs" using below [OF that] .
    then show ?thesis using that by (simp add: nth)
  qed
  have cat: "concat cs = xs"
    using cover by (simp add: cs_def concat_chunks_take)
  have lst: "1 \<le> length (last cs) \<and> length (last cs) \<le> K" if "cs \<noteq> []"
  proof -
    from that have m: "0 < m" using len by (cases m) auto
    then have "last cs = cs ! (m - 1)" using that len by (simp add: last_conv_nth)
    also have "\<dots> = take K (drop ((m - 1) * K) xs)" using m by (simp add: nth)
    finally have l: "last cs = take K (drop ((m - 1) * K) xs)" .
    have "(m - 1) * K < length xs" using below [of "m - 1"] m by simp
    then show ?thesis using K(1) by (simp add: l)
  qed
  have emp: "cs = []" if "xs = []"
    using that K(1) by (simp add: cs_def m_def)
  show ?thesis
  proof (intro exI [of _ cs] conjI allI impI)
    show "chunk_list xs k = Inr cs" by (rule run)
    show "length cs = (length xs + nat k - 1) div nat k"
      using len by (simp add: m_def K_def)
    show "cs ! j = take (nat k) (drop (j * nat k) xs)" if "j < length cs" for j
      using nth [of j] that len by (simp add: K_def)
    show "concat cs = xs" by (rule cat)
    show "length (cs ! j) = nat k" if "Suc j < length cs" for j
      using full [of j] that len by (simp add: K_def)
    show "1 \<le> length (last cs)" if "cs \<noteq> []"
      using lst [OF that] by simp
    show "length (last cs) \<le> nat k" if "cs \<noteq> []"
      using lst [OF that] by (simp add: K_def)
    show "cs = []" if "xs = []"
      using emp [OF that] .
  qed
qed

theorem chunk_list_partition_witness:
  "(1::int) \<le> 2 \<and> chunk_list [10, 20, 30, 40, 50 :: int] 2 = Inr [[10, 20], [30, 40], [50]]"
proof -
  have h: "(1::int) \<le> 2" by simp
  have ev: "chunk_list [10, 20, 30, 40, 50 :: int] 2 = Inr [[10, 20], [30, 40], [50]]"
    by (simp add: chunk_list_def py_range_def py_slice_def slice_bound_def upt_rec)
  obtain cs where cs: "chunk_list [10, 20, 30, 40, 50 :: int] 2 = Inr cs"
      "concat cs = [10, 20, 30, 40, 50 :: int]"
    using chunk_list_partition [OF h, of "[10, 20, 30, 40, 50 :: int]"] by blast
  then show ?thesis using ev by simp
qed

section \<open>Properties of the float model\<close>

lemma bitlen_rat_bounds:
  assumes "0 < n"
  shows "(2::rat) powi (bitlen n - 1) \<le> of_int n" "of_int n < (2::rat) powi (bitlen n)"
proof -
  have b: "2 ^ nat (bitlen n - 1) \<le> n" "n < 2 ^ nat (bitlen n)"
    using bitlen_bounds [OF assms] by simp_all
  have p: "1 \<le> bitlen n" using assms by (simp add: bitlen_alt_def)
  have "(of_int (2 ^ nat (bitlen n - 1)) :: rat) \<le> of_int n"
    using b(1) by (simp only: of_int_le_iff)
  then show "(2::rat) powi (bitlen n - 1) \<le> of_int n"
    using p by (simp add: power_int_def)
  have "(of_int n :: rat) < of_int (2 ^ nat (bitlen n))"
    using b(2) by (simp only: of_int_less_iff)
  then show "of_int n < (2::rat) powi (bitlen n)"
    using p by (simp add: power_int_def)
qed

lemma floor_log2_bounds:
  assumes "0 < q"
  shows "2 powi (floor_log2 q) \<le> q" "q < 2 powi (floor_log2 q + 1)"
proof -
  obtain n d where nd: "quotient_of q = (n, d)" by (cases "quotient_of q")
  have d: "0 < d" using nd by (rule quotient_of_denom_pos)
  have q: "q = of_int n / of_int d" using nd by (rule quotient_of_div)
  have n: "0 < n" using assms d by (simp add: q zero_less_divide_iff)
  define k where "k = bitlen n - bitlen d"
  have dpos: "(0::rat) < of_int d" using d by simp
  have lo: "(2::rat) powi (k - 1) < q"
  proof -
    have "(2::rat) powi (k - 1) * of_int d < 2 powi (k - 1) * 2 powi (bitlen d)"
      using bitlen_rat_bounds(2) [OF d] by simp
    also have "\<dots> = 2 powi (bitlen n - 1)"
      by (simp add: k_def power_int_add [symmetric])
    also have "\<dots> \<le> of_int n" using bitlen_rat_bounds(1) [OF n] .
    finally show ?thesis using dpos by (simp add: q pos_less_divide_eq)
  qed
  have hi: "q < (2::rat) powi (k + 1)"
  proof -
    have "of_int n < (2::rat) powi (bitlen n)" using bitlen_rat_bounds(2) [OF n] .
    also have "\<dots> = 2 powi (k + 1) * 2 powi (bitlen d - 1)"
      by (simp add: k_def power_int_add [symmetric])
    also have "\<dots> \<le> 2 powi (k + 1) * of_int d"
      using bitlen_rat_bounds(1) [OF d] by simp
    finally show ?thesis using dpos by (simp add: q pos_divide_less_eq)
  qed
  have f: "floor_log2 q = (if 2 powi k \<le> q then k else k - 1)"
    by (simp add: floor_log2_def nd k_def Let_def)
  show "2 powi (floor_log2 q) \<le> q" using lo by (simp add: f)
  show "q < 2 powi (floor_log2 q + 1)" using hi by (simp add: f)
qed

lemma floor_log2_eqI:
  assumes "2 powi e \<le> q" "q < 2 powi (e + 1)"
  shows "floor_log2 q = e"
proof -
  have "(0::rat) < 2 powi e" by simp
  then have q: "0 < q" using assms(1) by (rule less_le_trans)
  note b = floor_log2_bounds [OF q]
  have "(2::rat) powi e < 2 powi (floor_log2 q + 1)" using assms(1) b(2) by (rule le_less_trans)
  then have 1: "e < floor_log2 q + 1"
    using power_int_increasing [of "floor_log2 q + 1" e "2::rat"] by (cases "e < floor_log2 q + 1") simp_all
  have "(2::rat) powi (floor_log2 q) < 2 powi (e + 1)" using b(1) assms(2) by (rule le_less_trans)
  then have 2: "floor_log2 q < e + 1"
    using power_int_increasing [of "e + 1" "floor_log2 q" "2::rat"] by (cases "floor_log2 q < e + 1") simp_all
  from 1 2 show ?thesis by simp
qed

lemma round_half_even_eqI:
  assumes "of_int n - 1 / 2 < q" "q < of_int n + 1 / 2"
  shows "round_half_even q = n"
proof (cases "of_int n \<le> q")
  case True
  then have "\<lfloor>q\<rfloor> = n" using assms(2) by (intro floor_unique) simp_all
  then show ?thesis using assms(2) by (simp add: round_half_even_def Let_def)
next
  case False
  then have "\<lfloor>q\<rfloor> = n - 1" using assms(1) by (intro floor_unique) simp_all
  then show ?thesis using assms(1) by (simp add: round_half_even_def Let_def)
qed

lemma round_double_finiteI:
  assumes "2 powi e \<le> \<bar>q\<bar>" "\<bar>q\<bar> < 2 powi (e + 1)" "- 1022 \<le> e"
    and "of_int n - 1 / 2 < q / 2 powi (e - 52)" "q / 2 powi (e - 52) < of_int n + 1 / 2"
    and "r = of_int n * 2 powi (e - 52)" "r < 2 ^ 1024" "- (2 ^ 1024) < r"
  shows "round_double q = Finite r"
proof -
  have "(0::rat) < 2 powi e" by simp
  then have "0 < \<bar>q\<bar>" using assms(1) by (rule less_le_trans)
  then have q: "q \<noteq> 0" by simp
  have e: "floor_log2 \<bar>q\<bar> = e" using assms(1,2) by (rule floor_log2_eqI)
  have n: "round_half_even (q / 2 powi (e - 52)) = n" using assms(4,5) by (rule round_half_even_eqI)
  show ?thesis
    using q assms(3,7,8) by (simp add: round_double_def e n Let_def max_def assms(6) [symmetric])
qed

lemma round_double_0: "round_double 0 = Finite 0"
  by (simp add: round_double_def)

section \<open>Properties of the Rate Processor\<close>

lemma py_int_error: "py_int s = Inl e \<Longrightarrow> e = ValueError"
  by (auto simp: py_int_def split: prod.splits if_splits)

lemma py_float_error: "py_float s = Inl e \<Longrightarrow> e = ValueError"
  by (auto simp: py_float_def split: prod.splits if_splits option.splits)

lemma parse_prod_id_total: "\<exists>prod_id. parse_prod_id s = Inr prod_id"
  by (auto simp: parse_prod_id_def split: sum.splits dest: py_int_error)

lemma parse_raw_value_total: "\<exists>raw_value. parse_raw_value (JStr s) = Inr raw_value"
  by (auto simp: parse_raw_value_def split: sum.splits dest: py_float_error)


lemma float_div_nonzero: "b \<noteq> 0 \<Longrightarrow> \<exists>z. float_div x (Finite b) = Inr z"
  by (cases x) simp_all

lemma compute_funding_rate_total: "\<exists>rate. compute_funding_rate raw_value = Inr rate"
proof -
  obtain a where a: "float_div raw_value (Finite (10 ^ 18)) = Inr a"
    using float_div_nonzero [of "10 ^ 18" raw_value] by auto
  obtain b where b: "float_div a (Finite 24) = Inr b"
    using float_div_nonzero [of 24 a] by auto
  show ?thesis unfolding compute_funding_rate_def a by (simp add: b del: float_div.simps)
qed

lemma compute_funding_rate_zero: "compute_funding_rate (Finite 0) = Inr (Finite 0)"
  by (simp add: compute_funding_rate_def round_double_0)

lemma store_entries_Cons:
  "store_entries ((t, e) # labelled) fd = store_entries labelled (append_entry t e fd)"
  by (simp add: store_entries_def)

lemma make_entry_total: "\<exists>ticker entry. make_entry m ts (k, JStr r) = Inr (ticker, entry)"
proof -
  obtain p where p: "parse_prod_id k = Inr p" using parse_prod_id_total by blast
  obtain x where x: "parse_raw_value (JStr r) = Inr x" using parse_raw_value_total by blast
  obtain y where y: "compute_funding_rate x = Inr y" using compute_funding_rate_total by blast
  show ?thesis by (simp add: make_entry_def p x y)
qed



lemma make_entry_ticker:
  assumes "make_entry m ts (k, r) = Inr (ticker, entry)" "parse_prod_id k = Inr p"
  shows "ticker = lookup_ticker m p"
  using assms by (auto simp: make_entry_def split: sum.splits)

lemma lookup_ticker_unknown:
  "mapping_get m p = None \<Longrightarrow> lookup_ticker m p = ''Unknown('' @ str_key p @ '')''"
  by (simp add: lookup_ticker_def unknown_label_def)

lemma fold_err_append:
  "fold_err f (xs @ ys) s = (case fold_err f xs s of Inl e \<Rightarrow> Inl e | Inr s' \<Rightarrow> fold_err f ys s')"
  by (induction xs arbitrary: s) (auto split: sum.splits)

lemma store_entries_append:
  "store_entries (xs @ ys) fd = store_entries ys (store_entries xs fd)"
  by (simp add: store_entries_def)

text \<open>On string rates the inner loop stores one labelled entry for each item.\<close>

lemma fold_process_rate:
  "\<exists>labelled. list_all2 (\<lambda>(k, r) le. make_entry m ts (k, JStr r) = Inr le) rates labelled
      \<and> fold_err (process_rate m ts) (map (\<lambda>(k, r). (k, JStr r)) rates) fd
          = Inr (store_entries labelled fd)"
proof (induction rates arbitrary: fd)
  case Nil
  show ?case by (simp add: store_entries_def)
next
  case (Cons item rates)
  obtain k r where item: "item = (k, r)" by (cases item)
  obtain t e where te: "make_entry m ts (k, JStr r) = Inr (t, e)" using make_entry_total by blast
  obtain labelled where l: "list_all2 (\<lambda>(k, r) le. make_entry m ts (k, JStr r) = Inr le) rates labelled"
      "fold_err (process_rate m ts) (map (\<lambda>(k, r). (k, JStr r)) rates) (append_entry t e fd)
         = Inr (store_entries labelled (append_entry t e fd))"
    using Cons.IH [of "append_entry t e fd"] by blast
  have pr: "process_rate m ts (k, JStr r) fd = Inr (append_entry t e fd)"
    by (simp add: process_rate_def te)
  show ?case
    by (rule exI [of _ "(t, e) # labelled"]) (simp add: item te pr l store_entries_Cons)
qed

lemma snapshot_json_timestamp:
  "json_get (snapshot_json snap) ''timestamp'' JNull = Inr (timestamp_json (timestamp snap))"
  by (simp add: snapshot_json_def timestamp_json_def split: option.splits)

lemma snapshot_json_rates:
  "json_get (snapshot_json snap) ''funding_rates'' (JObj [])
     = Inr (JObj (map (\<lambda>(k, r). (k, JStr r))
                    (case funding_rates snap of None \<Rightarrow> [] | Some rates \<Rightarrow> rates)))"
  by (simp add: snapshot_json_def split: option.splits)

lemma process_snapshot_entries:
  "\<exists>labelled. list_all2 (\<lambda>(ts, k, r) le. make_entry m (timestamp_json ts) (k, JStr r) = Inr le)
                  (snapshot_items snap) labelled
      \<and> process_snapshot m (snapshot_json snap) fd = Inr (store_entries labelled fd)"
proof -
  let ?rates = "case funding_rates snap of None \<Rightarrow> [] | Some rates \<Rightarrow> rates"
  obtain labelled where
    l: "list_all2 (\<lambda>(k, r) le. make_entry m (timestamp_json (timestamp snap)) (k, JStr r) = Inr le)
         ?rates labelled"
    and f: "fold_err (process_rate m (timestamp_json (timestamp snap)))
             (map (\<lambda>(k, r). (k, JStr r)) ?rates) fd = Inr (store_entries labelled fd)"
    using fold_process_rate by blast
  have p: "process_snapshot m (snapshot_json snap) fd = Inr (store_entries labelled fd)"
    by (simp only: process_snapshot_def snapshot_json_timestamp snapshot_json_rates
        sum.case json_items.simps f)
  have "list_all2 (\<lambda>(ts, k, r) le. make_entry m (timestamp_json ts) (k, JStr r) = Inr le)
          (snapshot_items snap) labelled"
    using l by (auto simp: snapshot_items_def list_all2_map1 elim!: list_all2_mono)
  with p show ?thesis by blast
qed

lemma fold_process_snapshot:
  "\<exists>labelled. list_all2 (\<lambda>(ts, k, r) le. make_entry m (timestamp_json ts) (k, JStr r) = Inr le)
                  (all_items ss) labelled
      \<and> fold_err (process_snapshot m) (map snapshot_json ss) fd = Inr (store_entries labelled fd)"
proof (induction ss arbitrary: fd)
  case Nil
  show ?case by (simp add: all_items_def store_entries_def)
next
  case (Cons snap ss)
  obtain l1 where l1:
    "list_all2 (\<lambda>(ts, k, r) le. make_entry m (timestamp_json ts) (k, JStr r) = Inr le)
       (snapshot_items snap) l1"
    "process_snapshot m (snapshot_json snap) fd = Inr (store_entries l1 fd)"
    using process_snapshot_entries by blast
  obtain l2 where l2:
    "list_all2 (\<lambda>(ts, k, r) le. make_entry m (timestamp_json ts) (k, JStr r) = Inr le)
       (all_items ss) l2"
    "fold_err (process_snapshot m) (map snapshot_json ss) (store_entries l1 fd)
       = Inr (store_entries l2 (store_entries l1 fd))"
    using Cons.IH [of "store_entries l1 fd"] by blast
  show ?case
  proof (intro exI [of _ "l1 @ l2"] conjI)
    show "list_all2 (\<lambda>(ts, k, r) le. make_entry m (timestamp_json ts) (k, JStr r) = Inr le)
            (all_items (snap # ss)) (l1 @ l2)"
      using l1(1) l2(1) by (simp add: all_items_def list_all2_appendI)
    show "fold_err (process_snapshot m) (map snapshot_json (snap # ss)) fd
            = Inr (store_entries (l1 @ l2) fd)"
      by (simp add: l1(2) l2(2) store_entries_append)
  qed
qed

lemma process_funding_rates_entries:
  "\<exists>labelled. list_all2 (\<lambda>(ts, k, r) le. make_entry m (timestamp_json ts) (k, JStr r) = Inr le)
                  (all_items ss) labelled
      \<and> process_funding_rates m (map snapshot_json ss) = Inr (store_entries labelled [])"
  unfolding process_funding_rates_def by (rule fold_process_snapshot)

section \<open>Stored entries, the descending sort and the averages\<close>

subsection \<open>What storing labelled entries builds\<close>

lemma append_entry_keys:
  "map fst (append_entry t e fd) = (if t \<in> set (map fst fd) then map fst fd else map fst fd @ [t])"
proof (induction fd)
  case Nil
  show ?case by simp
next
  case (Cons p fd)
  obtain t' es where p: "p = (t', es)" by (cases p)
  show ?case
  proof (cases "t' = t")
    case True
    then show ?thesis by (simp add: p)
  next
    case False
    then show ?thesis using Cons.IH by (simp add: p)
  qed
qed

lemma append_entry_map_of:
  "map_of (append_entry t e fd) =
     (map_of fd)(t \<mapsto> (case map_of fd t of None \<Rightarrow> [e] | Some es \<Rightarrow> es @ [e]))"
  by (induction fd) (auto simp: fun_eq_iff)

lemma append_entry_count:
  "sum_list (map (\<lambda>x. length (snd x)) (append_entry t e fd)) = Suc (sum_list (map (\<lambda>x. length (snd x)) fd))"
  by (induction fd) auto

lemma store_entries_keys:
  "map fst (store_entries labelled fd) =
     foldl (\<lambda>seen x. if x \<in> set seen then seen else seen @ [x]) (map fst fd) (map fst labelled)"
proof (induction labelled arbitrary: fd)
  case Nil
  show ?case by (simp add: store_entries_def)
next
  case (Cons le labelled)
  obtain t e where le: "le = (t, e)" by (cases le)
  show ?case
    unfolding le store_entries_Cons Cons.IH by (simp add: append_entry_keys)
qed

lemma store_entries_map_of:
  "map_of (store_entries labelled fd) t =
     (if t \<in> set (map fst labelled)
      then Some ((case map_of fd t of None \<Rightarrow> [] | Some es \<Rightarrow> es)
                 @ map snd (filter (\<lambda>le. fst le = t) labelled))
      else map_of fd t)"
proof (induction labelled arbitrary: fd)
  case Nil
  show ?case by (simp add: store_entries_def)
next
  case (Cons le labelled)
  obtain t' e where le: "le = (t', e)" by (cases le)
  show ?case
    unfolding le store_entries_Cons Cons.IH
    by (auto simp: append_entry_map_of filter_empty_conv image_iff split: option.splits)
qed

lemma store_entries_count:
  "sum_list (map (\<lambda>x. length (snd x)) (store_entries labelled fd))
     = sum_list (map (\<lambda>x. length (snd x)) fd) + length labelled"
proof (induction labelled arbitrary: fd)
  case Nil
  show ?case by (simp add: store_entries_def)
next
  case (Cons le labelled)
  obtain t e where le: "le = (t, e)" by (cases le)
  show ?case
    unfolding le store_entries_Cons Cons.IH by (simp add: append_entry_count)
qed

lemma first_occurrences_acc:
  "distinct seen \<Longrightarrow>
     distinct (foldl (\<lambda>seen x. if x \<in> set seen then seen else seen @ [x]) seen xs)
     \<and> set (foldl (\<lambda>seen x. if x \<in> set seen then seen else seen @ [x]) seen xs) = set seen \<union> set xs"
  by (induction xs arbitrary: seen) auto

lemma first_occurrences_distinct: "distinct (first_occurrences xs)"
  using first_occurrences_acc [of "[]" xs] by (simp add: first_occurrences_def)

lemma first_occurrences_set: "set (first_occurrences xs) = set xs"
  using first_occurrences_acc [of "[]" xs] by (simp add: first_occurrences_def)

lemma store_entries_tickers:
  "map fst (store_entries labelled []) = first_occurrences (map fst labelled)"
  by (simp add: store_entries_keys first_occurrences_def)

lemma store_entries_distinct: "distinct (map fst (store_entries labelled []))"
  by (simp add: store_entries_tickers first_occurrences_distinct)

lemma store_entries_lookup:
  "t \<in> set (map fst labelled) \<Longrightarrow>
     map_of (store_entries labelled []) t = Some (map snd (filter (\<lambda>le. fst le = t) labelled))"
  by (simp add: store_entries_map_of)

lemma store_entries_recorded:
  assumes "i < length labelled"
  shows "\<exists>es. map_of (store_entries labelled []) (fst (labelled ! i)) = Some es
           \<and> snd (labelled ! i) \<in> set es"
proof -
  have m: "labelled ! i \<in> set labelled" using assms by simp
  then have "fst (labelled ! i) \<in> set (map fst labelled)" by simp
  then have "map_of (store_entries labelled []) (fst (labelled ! i))
      = Some (map snd (filter (\<lambda>le. fst le = fst (labelled ! i)) labelled))"
    by (rule store_entries_lookup)
  moreover have "snd (labelled ! i) \<in> set (map snd (filter (\<lambda>le. fst le = fst (labelled ! i)) labelled))"
    using m by auto
  ultimately show ?thesis by blast
qed

subsection \<open>The order of floats without NaN and the descending sort\<close>

lemma float_lt_neq: "float_lt x y \<Longrightarrow> x \<noteq> y"
  by (cases x; cases y) simp_all

lemma float_lt_le: "float_lt x y \<Longrightarrow> float_le x y"
  by (cases x; cases y) simp_all

lemma float_le_iff_not_lt: "x \<noteq> NaN \<Longrightarrow> y \<noteq> NaN \<Longrightarrow> float_le y x \<longleftrightarrow> \<not> float_lt x y"
  by (cases x; cases y) auto

lemma float_le_trans: "float_le x y \<Longrightarrow> float_le y z \<Longrightarrow> float_le x z"
  by (cases x; cases y; cases z) simp_all

lemma insort_desc_set: "set (insort_desc key x ys) = insert x (set ys)"
  by (induction ys) auto

lemma insort_desc_length: "length (insort_desc key x ys) = Suc (length ys)"
  by (induction ys) auto

lemma insort_desc_sorted:
  assumes "sorted_wrt (\<lambda>a b. float_le (key b) (key a)) ys" "key x \<noteq> NaN" "\<forall>y \<in> set ys. key y \<noteq> NaN"
  shows "sorted_wrt (\<lambda>a b. float_le (key b) (key a)) (insort_desc key x ys)"
  using assms
proof (induction ys)
  case Nil
  show ?case by simp
next
  case (Cons y ys)
  show ?case
  proof (cases "float_lt (key x) (key y)")
    case True
    have "sorted_wrt (\<lambda>a b. float_le (key b) (key a)) (insort_desc key x ys)"
      using Cons by simp
    moreover have "\<forall>z \<in> set (insort_desc key x ys). float_le (key z) (key y)"
      using Cons.prems(1) True by (auto simp: insort_desc_set float_lt_le)
    ultimately show ?thesis using True by simp
  next
    case False
    have yx: "float_le (key y) (key x)"
      using False Cons.prems by (simp add: float_le_iff_not_lt)
    have "\<forall>z \<in> set ys. float_le (key z) (key x)"
      using Cons.prems(1) yx by (auto intro: float_le_trans)
    then show ?thesis using False yx Cons.prems(1) by simp
  qed
qed

lemma insort_desc_stable:
  "filter (\<lambda>z. key z = v) (insort_desc key x ys)
     = (if key x = v then x # filter (\<lambda>z. key z = v) ys else filter (\<lambda>z. key z = v) ys)"
  by (induction ys) (auto dest: float_lt_neq)

lemma sorted_reverse_set: "set (sorted_reverse key xs) = set xs"
  by (induction xs) (simp_all add: sorted_reverse_def insort_desc_set)

lemma sorted_reverse_length: "length (sorted_reverse key xs) = length xs"
  by (induction xs) (simp_all add: sorted_reverse_def insort_desc_length)

lemma sorted_reverse_sorted:
  "\<forall>x \<in> set xs. key x \<noteq> NaN \<Longrightarrow>
     sorted_wrt (\<lambda>a b. float_le (key b) (key a)) (sorted_reverse key xs)"
proof (induction xs)
  case Nil
  show ?case by (simp add: sorted_reverse_def)
next
  case (Cons x xs)
  have "sorted_wrt (\<lambda>a b. float_le (key b) (key a)) (insort_desc key x (sorted_reverse key xs))"
    using Cons by (intro insort_desc_sorted) (simp_all add: sorted_reverse_set)
  then show ?case by (simp add: sorted_reverse_def)
qed

lemma sorted_reverse_stable:
  "filter (\<lambda>z. key z = v) (sorted_reverse key xs) = filter (\<lambda>z. key z = v) xs"
proof (induction xs)
  case Nil
  show ?case by (simp add: sorted_reverse_def)
next
  case (Cons x xs)
  have "sorted_reverse key (x # xs) = insort_desc key x (sorted_reverse key xs)"
    by (simp add: sorted_reverse_def)
  then show ?case by (simp add: insort_desc_stable Cons.IH)
qed

subsection \<open>The averages\<close>

lemma dict_set_new: "k \<notin> set (map fst d) \<Longrightarrow> dict_set k v d = d @ [(k, v)]"
  by (induction d) auto

lemma float_div_3: "\<exists>a. float_div x (Finite 3) = Inr a"
  using float_div_nonzero [of 3 x] by simp

lemma fold_average_rate_step:
  assumes "distinct (map fst fd)" "set (map fst fd) \<inter> set (map fst acc) = {}"
  shows "\<exists>avg. fold_err average_rate_step fd acc = Inr (acc @ avg)
           \<and> list_all2 (\<lambda>(ticker, entries) (ticker', average). ticker' = ticker
                 \<and> float_div (py_sum (map funding_rate entries)) (Finite 3) = Inr average) fd avg"
  using assms
proof (induction fd arbitrary: acc)
  case Nil
  show ?case by simp
next
  case (Cons item fd)
  obtain t es where item: "item = (t, es)" by (cases item)
  obtain a where a: "float_div (py_sum (map funding_rate es)) (Finite 3) = Inr a"
    using float_div_3 by blast
  have new: "t \<notin> set (map fst acc)" using Cons.prems(2) by (auto simp: item)
  have step: "average_rate_step (t, es) acc = Inr (acc @ [(t, a)])"
    unfolding average_rate_step_def by (simp add: a dict_set_new [OF new] del: float_div.simps)
  have "distinct (map fst fd)" "set (map fst fd) \<inter> set (map fst (acc @ [(t, a)])) = {}"
    using Cons.prems by (auto simp: item)
  then obtain avg where avg: "fold_err average_rate_step fd (acc @ [(t, a)]) = Inr ((acc @ [(t, a)]) @ avg)"
    "list_all2 (\<lambda>(ticker, entries) (ticker', average). ticker' = ticker
        \<and> float_div (py_sum (map funding_rate entries)) (Finite 3) = Inr average) fd avg"
    using Cons.IH [of "acc @ [(t, a)]"] by blast
  show ?case
    by (rule exI [of _ "(t, a) # avg"]) (simp add: step avg item a del: float_div.simps)
qed

lemma average_rates_char:
  assumes "distinct (map fst fd)"
  shows "\<exists>avg. average_rates fd = Inr avg
           \<and> list_all2 (\<lambda>(ticker, entries) (ticker', average). ticker' = ticker
                 \<and> float_div (py_sum (map funding_rate entries)) (Finite 3) = Inr average) fd avg"
  using fold_average_rate_step [OF assms, of "[]"] by (simp add: average_rates_def)

section \<open>Properties of the fetcher, the loader and the run\<close>

subsection \<open>Snapshot Fetcher\<close>

lemma print_frame:
  "report_file (print ev st) = report_file st"
  "PRODUCT_MAPPING (print ev st) = PRODUCT_MAPPING st"
  "posted (print ev st) = posted st"
  "stdout (print ev st) = stdout st @ [ev]"
  by (simp_all add: print_def)

lemma get_historical_funding_rates_posted:
  "posted (snd (get_historical_funding_rates w product_ids count granularity st))
     = posted st @ [make_payload (clock w (length (posted st))) product_ids count granularity]"
  by (simp add: get_historical_funding_rates_def Let_def print_def split: fetched.splits option.splits)

lemma get_historical_funding_rates_frame:
  "report_file (snd (get_historical_funding_rates w product_ids count granularity st)) = report_file st"
  "PRODUCT_MAPPING (snd (get_historical_funding_rates w product_ids count granularity st)) = PRODUCT_MAPPING st"
  by (simp_all add: get_historical_funding_rates_def Let_def print_def split: fetched.splits option.splits)

lemma get_historical_funding_rates_empty:
  assumes "\<forall>i request. archive_reply w i request \<in> {RequestFailed, Json None, Json (Some [])}"
  shows "fst (get_historical_funding_rates w product_ids count granularity st) = []"
proof -
  define i where "i = length (posted st)"
  define request where "request = make_payload (clock w i) product_ids count granularity"
  have "archive_reply w i request \<in> {RequestFailed, Json None, Json (Some [])}"
    using assms by blast
  then show ?thesis
    unfolding get_historical_funding_rates_def Let_def i_def [symmetric] request_def [symmetric]
    by auto
qed

text \<open>
  C1 (as amended).  Whatever the granularity, the request that the Snapshot Fetcher posts
  carries the count, the granularity and the product ids it was given, and a cutoff
  \<open>max_time\<close> equal to the current time rounded down to a multiple of 3600 seconds, plus
  5 seconds.
\<close>

theorem cutoff_rounded_to_the_hour:
  "posted (snd (get_historical_funding_rates w product_ids count granularity st))
     = posted st @
       [\<lparr> p_count = count, p_granularity = granularity,
          p_max_time = clock w (length (posted st)) - clock w (length (posted st)) mod 3600 + 5,
          p_product_ids = product_ids \<rparr>]"
  by (simp add: get_historical_funding_rates_posted make_payload_def rounded_time_def)

text \<open>
  C1 as stated fails: at time 3660 with granularity 60, rounding down to the granularity
  and adding 5 gives 3665, and the request carries 3605.
\<close>

theorem cutoff_granularity_counterexample:
  "map p_max_time (posted (snd (get_historical_funding_rates empty_archive_world [2] 72 60 initial_state)))
     = [3605]
   \<and> clock empty_archive_world 0 - clock empty_archive_world 0 mod 60 + 5 = 3665"
  by (simp add: get_historical_funding_rates_posted make_payload_def rounded_time_def
      empty_archive_world_def initial_state_def)

subsection \<open>Mapping Loader\<close>

lemma dict_set_keys: "fst ` set (dict_set k v d) = insert k (fst ` set d)"
proof (induction d)
  case Nil
  show ?case by simp
next
  case (Cons p d)
  obtain k' v' where p: "p = (k', v')" by (cases p)
  show ?case using Cons.IH by (cases "k' = k") (auto simp: p)
qed

lemma build_mapping_keys:
  "build_mapping symbols acc = Inr new_mapping \<Longrightarrow>
     set (map fst new_mapping) = set (map fst acc) \<union> set (List.map_filter product_id symbols)"
proof (induction symbols arbitrary: acc)
  case Nil
  then show ?case by (simp add: List.map_filter_simps)
next
  case (Cons item symbols)
  from Cons.prems obtain k v where kv: "product_id item = Some k" "ticker_id item = Some v"
      "build_mapping symbols (dict_set k v acc) = Inr new_mapping"
    by (auto split: option.splits)
  show ?case
    using Cons.IH [OF kv(3)] by (simp add: List.map_filter_simps kv dict_set_keys)
qed

lemma build_mapping_complete:
  "\<forall>a \<in> set symbols. product_id a \<noteq> None \<and> ticker_id a \<noteq> None \<Longrightarrow>
     \<exists>new_mapping. build_mapping symbols acc = Inr new_mapping"
  by (induction symbols arbitrary: acc) auto

lemma build_mapping_missing:
  "\<exists>a \<in> set symbols. product_id a = None \<or> ticker_id a = None \<Longrightarrow>
     build_mapping symbols acc = Inl (KeyError ''product_id'')
     \<or> build_mapping symbols acc = Inl (KeyError ''ticker_id'')"
proof (induction symbols arbitrary: acc)
  case Nil
  then show ?case by simp
next
  case (Cons item symbols)
  show ?case
  proof (cases "product_id item = None \<or> ticker_id item = None")
    case True
    then show ?thesis by (auto split: option.splits)
  next
    case False
    then obtain k v where kv: "product_id item = Some k" "ticker_id item = Some v" by auto
    have "\<exists>a \<in> set symbols. product_id a = None \<or> ticker_id a = None"
      using Cons.prems False by auto
    then show ?thesis using Cons.IH [of "dict_set k v acc"] by (simp add: kv)
  qed
qed

text \<open>
  C4.  When the assets response is a list of records that all have both fields, the
  Mapping Loader raises nothing, and the stored mapping afterwards is the mapping built
  from the response if the set of product ids of the response differs from the set of ids
  of the stored mapping, and is the stored mapping, unchanged, if the two sets are equal.
\<close>

theorem mapping_replaced_iff_ids_differ:
  assumes "\<forall>a \<in> set symbols. product_id a \<noteq> None \<and> ticker_id a \<noteq> None"
  shows "\<exists>new_mapping. build_mapping symbols [] = Inr new_mapping
           \<and> set (map fst new_mapping) = set (List.map_filter product_id symbols)
           \<and> fst (update_product_mapping (Json symbols) st) = None
           \<and> PRODUCT_MAPPING (snd (update_product_mapping (Json symbols) st))
               = (if set (List.map_filter product_id symbols) \<noteq> set (map fst (PRODUCT_MAPPING st))
                  then new_mapping else PRODUCT_MAPPING st)"
proof -
  obtain new_mapping where n: "build_mapping symbols [] = Inr new_mapping"
    using build_mapping_complete [OF assms] by blast
  have k: "set (map fst new_mapping) = set (List.map_filter product_id symbols)"
    using build_mapping_keys [OF n] by simp
  show ?thesis
    by (rule exI [of _ new_mapping]) (simp add: n k [symmetric] update_product_mapping_def print_def)
qed

theorem mapping_replaced_iff_ids_differ_witness:
  "list_all (\<lambda>a. product_id a \<noteq> None \<and> ticker_id a \<noteq> None)
       [\<lparr> product_id = Some 2, ticker_id = Some ''ETH-PERP'' \<rparr>]
   \<and> PRODUCT_MAPPING (snd (update_product_mapping
         (Json [\<lparr> product_id = Some 2, ticker_id = Some ''ETH-PERP'' \<rparr>])
         (initial_state\<lparr>PRODUCT_MAPPING := [(2, ''BTC-PERP'')]\<rparr>)))
       = [(2, ''BTC-PERP'')]
   \<and> PRODUCT_MAPPING (snd (update_product_mapping
         (Json [\<lparr> product_id = Some 2, ticker_id = Some ''ETH-PERP'' \<rparr>])
         (initial_state\<lparr>PRODUCT_MAPPING := [(4, ''BTC-PERP'')]\<rparr>)))
       = [(2, ''ETH-PERP'')]"
proof -
  let ?symbols = "[\<lparr> product_id = Some 2, ticker_id = Some ''ETH-PERP'' \<rparr>]"
  have h: "\<forall>a \<in> set ?symbols. product_id a \<noteq> None \<and> ticker_id a \<noteq> None" by simp
  have b: "build_mapping ?symbols [] = Inr [(2, ''ETH-PERP'')]" by simp
  show ?thesis
    using h
      mapping_replaced_iff_ids_differ [OF h, of "initial_state\<lparr>PRODUCT_MAPPING := [(2, ''BTC-PERP'')]\<rparr>"]
      mapping_replaced_iff_ids_differ [OF h, of "initial_state\<lparr>PRODUCT_MAPPING := [(4, ''BTC-PERP'')]\<rparr>"]
    by (simp add: b List.map_filter_simps)
qed

subsection \<open>The run\<close>

lemma main_loader_raises:
  "update_product_mapping (assets_reply w) st = (Some e, st') \<Longrightarrow> main w st = (Some e, st')"
  by (simp add: main_def)

text \<open>
  C10.  When some record of the assets response lacks \<open>product_id\<close> or \<open>ticker_id\<close>, the
  Mapping Loader raises \<open>KeyError\<close> for that field and leaves the whole state, the stored
  mapping included, as it was; the exception ends the run.  A \<open>RequestException\<close> is
  caught: the loader prints and returns, the stored mapping unchanged.
\<close>

theorem missing_field_raises_and_keeps_mapping:
  assumes "\<exists>a \<in> set symbols. product_id a = None \<or> ticker_id a = None"
  shows "(update_product_mapping (Json symbols) st = (Some (KeyError ''product_id''), st)
          \<or> update_product_mapping (Json symbols) st = (Some (KeyError ''ticker_id''), st))
       \<and> (assets_reply w = Json symbols \<longrightarrow>
            main w st = update_product_mapping (Json symbols) st)
       \<and> update_product_mapping RequestFailed st = (None, print ErrorFetchingSymbols st)
       \<and> PRODUCT_MAPPING (print ErrorFetchingSymbols st) = PRODUCT_MAPPING st"
proof -
  have u: "update_product_mapping (Json symbols) st = (Some (KeyError ''product_id''), st)
      \<or> update_product_mapping (Json symbols) st = (Some (KeyError ''ticker_id''), st)"
    using build_mapping_missing [OF assms, of "[]"] by (auto simp: update_product_mapping_def)
  have m: "main w st = update_product_mapping (Json symbols) st" if "assets_reply w = Json symbols"
    using u that main_loader_raises [of w st] by auto
  show ?thesis
    using u m by (simp add: update_product_mapping_def print_def)
qed

theorem missing_field_raises_and_keeps_mapping_witness:
  "(\<exists>a \<in> set [\<lparr> product_id = Some 2, ticker_id = None \<rparr>]. product_id a = None \<or> ticker_id a = None)
   \<and> update_product_mapping (Json [\<lparr> product_id = Some 2, ticker_id = None \<rparr>])
        (initial_state\<lparr>PRODUCT_MAPPING := [(4, ''BTC-PERP'')]\<rparr>)
      = (Some (KeyError ''ticker_id''), initial_state\<lparr>PRODUCT_MAPPING := [(4, ''BTC-PERP'')]\<rparr>)"
proof -
  let ?symbols = "[\<lparr> product_id = Some 2, ticker_id = (None :: string option) \<rparr>]"
  have h: "\<exists>a \<in> set ?symbols. product_id a = None \<or> ticker_id a = None" by simp
  have b: "build_mapping ?symbols [] = Inl (KeyError ''ticker_id'')" by simp
  show ?thesis
    using h missing_field_raises_and_keeps_mapping
      [OF h, of "initial_state\<lparr>PRODUCT_MAPPING := [(4, ''BTC-PERP'')]\<rparr>" empty_archive_world]
    by (simp add: b update_product_mapping_def)
qed

lemma fetch_batches_frame:
  "report_file (snd (fetch_batches w count batches all_snapshots st)) = report_file st
   \<and> PRODUCT_MAPPING (snd (fetch_batches w count batches all_snapshots st)) = PRODUCT_MAPPING st"
proof (induction batches arbitrary: all_snapshots st)
  case Nil
  show ?case by simp
next
  case (Cons batch batches)
  obtain snapshots st1 where g:
    "get_historical_funding_rates w batch count 3600 (print (FetchingBatch batch) st) = (snapshots, st1)"
    by (cases "get_historical_funding_rates w batch count 3600 (print (FetchingBatch batch) st)")
  have f: "report_file st1 = report_file st" "PRODUCT_MAPPING st1 = PRODUCT_MAPPING st"
    using get_historical_funding_rates_frame [of w batch count 3600 "print (FetchingBatch batch) st"]
    by (simp_all add: g print_frame)
  show ?case
    using Cons.IH [of "if snapshots \<noteq> [] then all_snapshots @ snapshots else all_snapshots" "print Slept st1"]
    by (simp add: g f print_frame)
qed

lemma fetch_batches_empty:
  assumes "\<forall>i request. archive_reply w i request \<in> {RequestFailed, Json None, Json (Some [])}"
  shows "fst (fetch_batches w count batches all_snapshots st) = all_snapshots"
proof (induction batches arbitrary: st)
  case Nil
  show ?case by simp
next
  case (Cons batch batches)
  obtain snapshots st1 where g:
    "get_historical_funding_rates w batch count 3600 (print (FetchingBatch batch) st) = (snapshots, st1)"
    by (cases "get_historical_funding_rates w batch count 3600 (print (FetchingBatch batch) st)")
  have "snapshots = []"
    using get_historical_funding_rates_empty [OF assms, of batch count 3600 "print (FetchingBatch batch) st"]
    by (simp add: g)
  then show ?case using Cons.IH [of "print Slept st1"] by (simp add: g)
qed

lemma chunk_list_27: "\<exists>batches. chunk_list xs 27 = Inr batches"
  using chunk_list_pos [of 27 xs] by simp

text \<open>
  C8.  When the Mapping Loader raises nothing and the archive has no snapshot for any
  request (the request fails, or its answer has no \<open>snapshots\<close> key or an empty list),
  the run ends without an exception, the last thing it prints is that no snapshots were
  retrieved, and the report file is what it was before the run.
\<close>

theorem no_snapshots_no_report:
  assumes "fst (update_product_mapping (assets_reply w) st) = None"
    and "\<forall>i request. archive_reply w i request \<in> {RequestFailed, Json None, Json (Some [])}"
  shows "fst (main w st) = None
       \<and> (\<exists>log. stdout (snd (main w st)) = log @ [NoSnapshotsRetrieved])
       \<and> report_file (snd (main w st)) = report_file st"
proof -
  obtain st1 where u: "update_product_mapping (assets_reply w) st = (None, st1)"
    using assms(1) by (cases "update_product_mapping (assets_reply w) st") auto
  have r1: "report_file st1 = report_file st"
    using u by (auto simp: update_product_mapping_def print_def split: fetched.splits sum.splits if_splits)
  define ids where "ids = map fst (PRODUCT_MAPPING st1)"
  define st3 where "st3 = print (MaxBatchSize 27) (print (UsingProductIds ids) st1)"
  obtain batches where b: "chunk_list ids 27 = Inr batches" using chunk_list_27 by blast
  obtain all_snapshots st4 where f: "fetch_batches w 72 batches [] st3 = (all_snapshots, st4)"
    by (cases "fetch_batches w 72 batches [] st3")
  have e: "all_snapshots = []"
    using fetch_batches_empty [OF assms(2), of 72 batches "[]" st3] by (simp add: f)
  have "report_file st4 = report_file st3"
    using fetch_batches_frame [of w 72 batches "[]" st3] by (simp add: f)
  then have r4: "report_file st4 = report_file st"
    by (simp add: st3_def print_frame r1)
  have m: "main w st = (None, print NoSnapshotsRetrieved st4)"
    by (simp add: main_def u Let_def ids_def [symmetric] st3_def [symmetric] b f e)
  show ?thesis by (simp add: m print_frame r4)
qed

theorem no_snapshots_no_report_witness:
  "fst (update_product_mapping (assets_reply empty_archive_world) initial_state) = None
   \<and> (\<forall>i request. archive_reply empty_archive_world i request \<in> {RequestFailed, Json None, Json (Some [])})
   \<and> fst (main empty_archive_world initial_state) = None
   \<and> report_file (snd (main empty_archive_world initial_state)) = None"
proof -
  have h1: "fst (update_product_mapping (assets_reply empty_archive_world) initial_state) = None"
    by (simp add: empty_archive_world_def initial_state_def update_product_mapping_def print_def)
  have h2: "\<forall>i request. archive_reply empty_archive_world i request \<in> {RequestFailed, Json None, Json (Some [])}"
    by (simp add: empty_archive_world_def)
  show ?thesis
    using h1 h2 no_snapshots_no_report [OF h1 h2] by (simp add: initial_state_def)
qed

section \<open>The hourly percentage, malformed input and the ranking\<close>

subsection \<open>Some floats\<close>

lemma round_double_1: "round_double 1 = Finite 1"
  by (rule round_double_finiteI [where e = 0 and n = 4503599627370496]) simp_all

lemma round_double_2: "round_double 2 = Finite 2"
  by (rule round_double_finiteI [where e = 1 and n = 4503599627370496]) simp_all

lemma round_double_3: "round_double 3 = Finite 3"
  by (rule round_double_finiteI [where e = 1 and n = 6755399441055744]) simp_all

lemma round_double_6: "round_double 6 = Finite 6"
  by (rule round_double_finiteI [where e = 2 and n = 6755399441055744]) simp_all

lemma round_double_10: "round_double 10 = Finite 10"
  by (rule round_double_finiteI [where e = 3 and n = 5629499534213120]) simp_all

lemma round_double_third: "round_double (10 / 3) = Finite (7505999378950827 / 2 ^ 51)"
  by (rule round_double_finiteI [where e = 1 and n = 7505999378950827]) simp_all

lemma round_double_raw: "round_double 2400000000000000000 = Finite 2400000000000000000"
  by (rule round_double_finiteI [where e = 61 and n = 4687500000000000]) simp_all

lemma round_double_scaled:
  "round_double (2400000000000000000 / 1000000000000000000) = Finite (5404319552844595 / 2 ^ 51)"
  by (rule round_double_finiteI [where e = 1 and n = 5404319552844595]) simp_all

lemma round_double_hourly:
  "round_double ((5404319552844595 / 2 ^ 51) / 24) = Finite (7205759403792793 / 2 ^ 56)"
  by (rule round_double_finiteI [where e = "-4" and n = 7205759403792793]) simp_all

lemma round_double_percent: "round_double ((7205759403792793 / 2 ^ 56) * 100) = Finite 10"
  by (rule round_double_finiteI [where e = 3 and n = 5629499534213120]) simp_all

lemma py_float_raw: "py_float ''2400000000000000000'' = Inr (Finite 2400000000000000000)"
proof -
  have s: "strip ''2400000000000000000'' = ''2400000000000000000''"
    by (simp add: strip_def is_space_def)
  have v: "digits_value ''2400000000000000000'' = 2400000000000000000"
    by (simp add: digits_value_def is_digit_def digit_val_def)
  have p: "parse_floatnumber ''2400000000000000000'' = Some (2400000000000000000, 0)"
    by (simp add: parse_floatnumber_def split_at_def parse_number_def v is_digit_def)
  show ?thesis
    by (simp add: py_float_def s p lower_def round_double_raw)
qed

lemma compute_funding_rate_raw: "compute_funding_rate (Finite 2400000000000000000) = Inr (Finite 10)"
proof -
  have a: "float_div (Finite 2400000000000000000) (Finite (10 ^ 18)) = Inr (Finite (5404319552844595 / 2 ^ 51))"
    using round_double_scaled by simp
  have b: "float_div (Finite (5404319552844595 / 2 ^ 51)) (Finite 24) = Inr (Finite (7205759403792793 / 2 ^ 56))"
    using round_double_hourly by simp
  have c: "float_mul (Finite (7205759403792793 / 2 ^ 56)) (Finite 100) = Finite 10"
    using round_double_percent by simp
  show ?thesis
    by (simp only: compute_funding_rate_def a b c sum.case)
qed



lemma py_float_nan: "py_float ''nan'' = Inr NaN"
  by (simp add: py_float_def strip_def is_space_def lower_def)

lemma py_float_zero: "py_float ''0'' = Inr (Finite 0)"
proof -
  have p: "parse_floatnumber ''0'' = Some (0, 0)"
    by (simp add: parse_floatnumber_def split_at_def parse_number_def digits_value_def
        is_digit_def digit_val_def)
  show ?thesis
    by (simp add: py_float_def strip_def is_space_def p lower_def round_double_0)
qed

lemma compute_funding_rate_nan: "compute_funding_rate NaN = Inr NaN"
  by (simp add: compute_funding_rate_def)

lemma parse_prod_id_1: "parse_prod_id ''1'' = Inr (IntId 1)"
  by (simp add: parse_prod_id_def py_int_def strip_def is_space_def is_digit_def digit_val_def
      digits_value_def int_max_str_digits_def)

lemma parse_prod_id_3: "parse_prod_id ''3'' = Inr (IntId 3)"
  by (simp add: parse_prod_id_def py_int_def strip_def is_space_def is_digit_def digit_val_def
      digits_value_def int_max_str_digits_def)

lemma parse_prod_id_2: "parse_prod_id ''2'' = Inr (IntId 2)"
  by (simp add: parse_prod_id_def py_int_def strip_def is_space_def is_digit_def digit_val_def
      digits_value_def int_max_str_digits_def)

lemma parse_prod_id_7: "parse_prod_id ''7'' = Inr (IntId 7)"
  by (simp add: parse_prod_id_def py_int_def strip_def is_space_def is_digit_def digit_val_def
      digits_value_def int_max_str_digits_def)

lemma str_int_7: "str_int 7 = ''7''"
proof -
  have "char_of (55 :: nat) = char_of (of_char CHR ''7'' :: nat)" by simp
  then have "char_of (55 :: nat) = CHR ''7''" by (simp only: char_of_char)
  then show ?thesis by (simp add: str_int_def)
qed

subsection \<open>The hourly percentage\<close>

text \<open>
  C9.  The hourly percentage of a raw value is the float product by \<open>100\<close> of the float
  quotient by \<open>24\<close> of the float quotient of the raw value by \<open>1e18\<close>, each operation
  rounded to the nearest float; the two divisions never raise.  For the rate string
  \<open>"2400000000000000000"\<close>, under any product id, mapping and timestamp, the entry that
  the Rate Processor makes has the rate \<open>10.0\<close> exactly.
\<close>

theorem hourly_percentage_of_raw_rate:
  "(\<exists>a b. float_div raw_value (Finite (10 ^ 18)) = Inr a
        \<and> float_div a (Finite 24) = Inr b
        \<and> compute_funding_rate raw_value = Inr (float_mul b (Finite 100)))
   \<and> parse_raw_value (JStr ''2400000000000000000'') = Inr (Finite 2400000000000000000)
   \<and> compute_funding_rate (Finite 2400000000000000000) = Inr (Finite 10)
   \<and> (\<exists>prod_id. parse_prod_id prod_id_str = Inr prod_id
        \<and> make_entry m ts (prod_id_str, JStr ''2400000000000000000'')
            = Inr (lookup_ticker m prod_id, \<lparr> entry_timestamp = ts, funding_rate = Finite 10 \<rparr>))"
proof -
  obtain a where a: "float_div raw_value (Finite (10 ^ 18)) = Inr a"
    using float_div_nonzero [of "10 ^ 18" raw_value] by auto
  obtain b where b: "float_div a (Finite 24) = Inr b"
    using float_div_nonzero [of 24 a] by auto
  have f: "compute_funding_rate raw_value = Inr (float_mul b (Finite 100))"
    by (simp only: compute_funding_rate_def a b sum.case)
  have r: "parse_raw_value (JStr ''2400000000000000000'') = Inr (Finite 2400000000000000000)"
    by (simp add: parse_raw_value_def py_float_raw)
  obtain prod_id where p: "parse_prod_id prod_id_str = Inr prod_id"
    using parse_prod_id_total by blast
  have e: "make_entry m ts (prod_id_str, JStr ''2400000000000000000'')
      = Inr (lookup_ticker m prod_id, \<lparr> entry_timestamp = ts, funding_rate = Finite 10 \<rparr>)"
    by (simp add: make_entry_def p r compute_funding_rate_raw)
  show ?thesis
    using a b f r p e compute_funding_rate_raw by blast
qed

subsection \<open>Malformed rates and unknown products\<close>




text \<open>
  C6.  The Rate Processor stores one entry for each (product id, raw rate) pair of the
  snapshots: the lists of the dictionary it returns hold as many entries as there are
  pairs, the entry of each pair is in the list of its ticker, and when the product id
  of the pair (the integer, or the key itself when it is not one) is not a key of the
  mapping, the ticker is \<open>Unknown(\<close>, the product id as \<open>str\<close> prints it, \<open>)\<close>.
\<close>

theorem unknown_product_labelled_and_recorded:
  "\<exists>labelled. process_funding_rates m (map snapshot_json ss) = Inr (store_entries labelled [])
     \<and> sum_list (map (\<lambda>x. length (snd x)) (store_entries labelled [])) = length (all_items ss)
     \<and> list_all2 (\<lambda>(ts, prod_id_str, rate_str) (ticker, entry).
           make_entry m (timestamp_json ts) (prod_id_str, JStr rate_str) = Inr (ticker, entry)
           \<and> (\<exists>entries. map_of (store_entries labelled []) ticker = Some entries
                 \<and> entry \<in> set entries)
           \<and> (\<forall>prod_id. parse_prod_id prod_id_str = Inr prod_id \<and> mapping_get m prod_id = None
                 \<longrightarrow> ticker = ''Unknown('' @ str_key prod_id @ '')''))
         (all_items ss) labelled"
proof -
  obtain labelled where
    l: "list_all2 (\<lambda>(ts, k, r) le. make_entry m (timestamp_json ts) (k, JStr r) = Inr le)
          (all_items ss) labelled"
    and p: "process_funding_rates m (map snapshot_json ss) = Inr (store_entries labelled [])"
    using process_funding_rates_entries by blast
  have n: "length (all_items ss) = length labelled"
    using l by (rule list_all2_lengthD)
  have c: "sum_list (map (\<lambda>x. length (snd x)) (store_entries labelled [])) = length (all_items ss)"
    by (simp add: store_entries_count n)
  have "list_all2 (\<lambda>(ts, prod_id_str, rate_str) (ticker, entry).
           make_entry m (timestamp_json ts) (prod_id_str, JStr rate_str) = Inr (ticker, entry)
           \<and> (\<exists>entries. map_of (store_entries labelled []) ticker = Some entries
                 \<and> entry \<in> set entries)
           \<and> (\<forall>prod_id. parse_prod_id prod_id_str = Inr prod_id \<and> mapping_get m prod_id = None
                 \<longrightarrow> ticker = ''Unknown('' @ str_key prod_id @ '')''))
         (all_items ss) labelled"
  proof (rule list_all2_all_nthI [OF n])
    fix i
    assume i: "i < length (all_items ss)"
    obtain ts k r where x: "all_items ss ! i = (ts, k, r)" by (cases "all_items ss ! i") auto
    obtain ticker entry where le: "labelled ! i = (ticker, entry)" by (cases "labelled ! i") auto
    have e: "make_entry m (timestamp_json ts) (k, JStr r) = Inr (ticker, entry)"
      using list_all2_nthD [OF l i] by (simp add: x le)
    have s: "\<exists>entries. map_of (store_entries labelled []) ticker = Some entries \<and> entry \<in> set entries"
      using store_entries_recorded [of i labelled] i n by (simp add: le)
    have u: "ticker = ''Unknown('' @ str_key prod_id @ '')''"
      if "parse_prod_id k = Inr prod_id" "mapping_get m prod_id = None" for prod_id
      using make_entry_ticker [OF e that(1)] lookup_ticker_unknown [OF that(2)] by simp
    show "(case all_items ss ! i of (ts, prod_id_str, rate_str) \<Rightarrow> \<lambda>(ticker, entry).
           make_entry m (timestamp_json ts) (prod_id_str, JStr rate_str) = Inr (ticker, entry)
           \<and> (\<exists>entries. map_of (store_entries labelled []) ticker = Some entries
                 \<and> entry \<in> set entries)
           \<and> (\<forall>prod_id. parse_prod_id prod_id_str = Inr prod_id \<and> mapping_get m prod_id = None
                 \<longrightarrow> ticker = ''Unknown('' @ str_key prod_id @ '')'')) (labelled ! i)"
      using e s u by (simp add: x le)
  qed
  with p c show ?thesis by blast
qed

theorem unknown_product_labelled_and_recorded_witness:
  "parse_prod_id ''7'' = Inr (IntId 7)
   \<and> mapping_get [(2, ''BTC-PERP'')] (IntId 7) = None
   \<and> process_funding_rates [(2, ''BTC-PERP'')]
        [JObj [(''timestamp'', JInt 5),
               (''funding_rates'', JObj [(''2'', JStr ''2400000000000000000''),
                                         (''7'', JStr ''2400000000000000000'')])]]
      = Inr [(''BTC-PERP'', [\<lparr> entry_timestamp = JInt 5, funding_rate = Finite 10 \<rparr>]),
             (''Unknown(7)'', [\<lparr> entry_timestamp = JInt 5, funding_rate = Finite 10 \<rparr>])]"
proof -
  let ?m = "[(2 :: int, ''BTC-PERP'')]"
  let ?r = "''2400000000000000000''"
  let ?ss = "[\<lparr> timestamp = Some (5 :: int), funding_rates = Some [(''2'', ?r), (''7'', ?r)] \<rparr>]"
  let ?e = "\<lparr> entry_timestamp = JInt 5, funding_rate = Finite 10 \<rparr>"
  have js: "map snapshot_json ?ss
      = [JObj [(''timestamp'', JInt 5),
               (''funding_rates'', JObj [(''2'', JStr ?r), (''7'', JStr ?r)])]]"
    by (simp add: snapshot_json_def)
  have ai: "all_items ?ss = [(Some 5, ''2'', ?r), (Some 5, ''7'', ?r)]"
    by (simp add: all_items_def snapshot_items_def)
  have g: "mapping_get ?m (IntId 7) = None" by (simp add: mapping_get_def)
  have r: "parse_raw_value (JStr ?r) = Inr (Finite 2400000000000000000)"
    by (simp add: parse_raw_value_def py_float_raw)
  have e2: "make_entry ?m (timestamp_json (Some 5)) (''2'', JStr ?r) = Inr (''BTC-PERP'', ?e)"
    by (simp add: make_entry_def parse_prod_id_2 r compute_funding_rate_raw lookup_ticker_def
        mapping_get_def timestamp_json_def)
  obtain t7 where e7: "make_entry ?m (timestamp_json (Some 5)) (''7'', JStr ?r) = Inr (t7, ?e)"
    by (simp add: make_entry_def parse_prod_id_7 r compute_funding_rate_raw timestamp_json_def)
  obtain labelled where
    p: "process_funding_rates ?m (map snapshot_json ?ss) = Inr (store_entries labelled [])"
    and l: "list_all2 (\<lambda>(ts, prod_id_str, rate_str) (ticker, entry).
           make_entry ?m (timestamp_json ts) (prod_id_str, JStr rate_str) = Inr (ticker, entry)
           \<and> (\<exists>entries. map_of (store_entries labelled []) ticker = Some entries
                 \<and> entry \<in> set entries)
           \<and> (\<forall>prod_id. parse_prod_id prod_id_str = Inr prod_id \<and> mapping_get ?m prod_id = None
                 \<longrightarrow> ticker = ''Unknown('' @ str_key prod_id @ '')''))
         (all_items ?ss) labelled"
    using unknown_product_labelled_and_recorded [of ?m ?ss] by blast
  obtain ticker where le: "labelled = [(''BTC-PERP'', ?e), (ticker, ?e)]"
    and u: "\<forall>prod_id. parse_prod_id ''7'' = Inr prod_id \<and> mapping_get ?m prod_id = None
                 \<longrightarrow> ticker = ''Unknown('' @ str_key prod_id @ '')''"
    using l unfolding ai by (auto simp: list_all2_Cons1 e2 e7)
  have k: "ticker = ''Unknown(7)''"
    using u parse_prod_id_7 g by (simp add: str_key_def str_int_7)
  have "process_funding_rates ?m (map snapshot_json ?ss)
      = Inr [(''BTC-PERP'', [?e]), (''Unknown(7)'', [?e])]"
    using p by (simp add: le k store_entries_def)
  then show ?thesis
    by (simp only: js parse_prod_id_7 g simp_thms)
qed

subsection \<open>The averages and the ranking\<close>

lemma averages_keys:
  "list_all2 (\<lambda>(ticker, entries) (ticker', average). ticker' = ticker \<and> Q entries average) fd avg
     \<Longrightarrow> map fst avg = map fst fd"
  by (induction rule: list_all2_induct) auto

text \<open>
  C2.  For a dictionary of entries (a list of pairs with distinct keys) the Aggregator
  raises nothing, and the averages it computes have the tickers of the dictionary in the
  same order, each with the float quotient by \<open>3\<close> of the sum of the rates of the
  ticker's entries, whatever their number.
\<close>

theorem average_is_sum_over_three:
  assumes "distinct (map fst fd)"
  shows "\<exists>averages. average_rates fd = Inr averages
           \<and> map fst averages = map fst fd
           \<and> list_all2 (\<lambda>(ticker, entries) (ticker', average). ticker' = ticker
                 \<and> float_div (py_sum (map funding_rate entries)) (Finite 3) = Inr average)
               fd averages"
proof -
  obtain avg where a: "average_rates fd = Inr avg"
    and l: "list_all2 (\<lambda>(ticker, entries) (ticker', average). ticker' = ticker
                 \<and> float_div (py_sum (map funding_rate entries)) (Finite 3) = Inr average) fd avg"
    using average_rates_char [OF assms] by blast
  show ?thesis
    using a l averages_keys [OF l] by blast
qed

theorem average_is_sum_over_three_witness:
  "distinct (map fst [(''BTC-PERP'', [\<lparr> entry_timestamp = JInt 1, funding_rate = Finite 3 \<rparr>,
                                        \<lparr> entry_timestamp = JInt 2, funding_rate = Finite 3 \<rparr>])])
   \<and> average_rates [(''BTC-PERP'', [\<lparr> entry_timestamp = JInt 1, funding_rate = Finite 3 \<rparr>,
                                     \<lparr> entry_timestamp = JInt 2, funding_rate = Finite 3 \<rparr>])]
      = Inr [(''BTC-PERP'', Finite 2)]"
proof -
  let ?es = "[\<lparr> entry_timestamp = JInt 1, funding_rate = Finite 3 \<rparr>,
              \<lparr> entry_timestamp = JInt 2, funding_rate = Finite 3 \<rparr>]"
  let ?fd = "[(''BTC-PERP'', ?es)]"
  have h: "distinct (map fst ?fd)" by simp
  have s: "py_sum [Finite 3, Finite 3] = Finite 6"
    by (simp add: py_sum_def round_double_3 round_double_6)
  have d: "float_div (Finite 6) (Finite 3) = Inr (Finite 2)"
    by (simp add: round_double_2)
  obtain averages where a: "average_rates ?fd = Inr averages"
    and l: "list_all2 (\<lambda>(ticker, entries) (ticker', average). ticker' = ticker
                 \<and> float_div (py_sum (map funding_rate entries)) (Finite 3) = Inr average)
               ?fd averages"
    using average_is_sum_over_three [OF h] by blast
  have "averages = [(''BTC-PERP'', Finite 2)]"
    using l by (auto simp: list_all2_Cons1 s d simp del: float_div.simps)
  then show ?thesis
    using a h by simp
qed

text \<open>
  C7 (as amended).  The averages are listed in the order of the tickers of the dictionary
  of entries, the order in which the tickers first appeared.  When no average is a NaN, the ranking
  is a rearrangement of the averages into descending order (each average is at least
  the ones after it), and it is stable: for every value, the pairs with that average
  are in the ranking in the order in which they are in the averages.
\<close>

theorem ranking_descending_and_stable:
  assumes "distinct (map fst fd)"
    and "average_rates fd = Inr averages"
    and "\<forall>item \<in> set averages. snd item \<noteq> NaN"
  shows "map fst averages = map fst fd
       \<and> sorted_wrt (\<lambda>a b. float_le (snd b) (snd a)) (sorted_rates averages)
       \<and> (\<forall>v. filter (\<lambda>item. snd item = v) (sorted_rates averages)
               = filter (\<lambda>item. snd item = v) averages)
       \<and> set (sorted_rates averages) = set averages
       \<and> length (sorted_rates averages) = length averages"
proof -
  obtain avg where a: "average_rates fd = Inr avg"
    and l: "list_all2 (\<lambda>(ticker, entries) (ticker', average). ticker' = ticker
                 \<and> float_div (py_sum (map funding_rate entries)) (Finite 3) = Inr average) fd avg"
    using average_rates_char [OF assms(1)] by blast
  have k: "map fst averages = map fst fd"
    using averages_keys [OF l] a assms(2) by simp
  have s: "sorted_wrt (\<lambda>a b. float_le (snd b) (snd a)) (sorted_rates averages)"
    unfolding sorted_rates_def using assms(3) by (rule sorted_reverse_sorted)
  show ?thesis
    using k s
    by (simp add: sorted_rates_def sorted_reverse_stable sorted_reverse_set sorted_reverse_length)
qed

theorem ranking_descending_and_stable_witness:
  "average_rates [(''A'', [\<lparr> entry_timestamp = JInt 1, funding_rate = Finite 3 \<rparr>]),
                  (''B'', [\<lparr> entry_timestamp = JInt 1, funding_rate = Finite 6 \<rparr>]),
                  (''C'', [\<lparr> entry_timestamp = JInt 1, funding_rate = Finite 3 \<rparr>])]
     = Inr [(''A'', Finite 1), (''B'', Finite 2), (''C'', Finite 1)]
   \<and> sorted_rates [(''A'', Finite 1), (''B'', Finite 2), (''C'', Finite 1)]
     = [(''B'', Finite 2), (''A'', Finite 1), (''C'', Finite 1)]
   \<and> sorted_wrt (\<lambda>a b. float_le (snd b) (snd a))
       (sorted_rates [(''A'', Finite 1), (''B'', Finite 2), (''C'', Finite 1)])
   \<and> filter (\<lambda>item. snd item = Finite 1)
       (sorted_rates [(''A'', Finite 1), (''B'', Finite 2), (''C'', Finite 1)])
     = [(''A'', Finite 1), (''C'', Finite 1)]"
proof -
  let ?fd = "[(''A'', [\<lparr> entry_timestamp = JInt 1, funding_rate = Finite 3 \<rparr>]),
              (''B'', [\<lparr> entry_timestamp = JInt 1, funding_rate = Finite 6 \<rparr>]),
              (''C'', [\<lparr> entry_timestamp = JInt 1, funding_rate = Finite 3 \<rparr>])]"
  let ?averages = "[(''A'', Finite 1), (''B'', Finite 2), (''C'', Finite 1)]"
  have h1: "distinct (map fst ?fd)" by simp
  have h2: "average_rates ?fd = Inr ?averages"
    by (simp add: average_rates_def average_rate_step_def py_sum_def
        round_double_1 round_double_2 round_double_3 round_double_6)
  have h3: "\<forall>item \<in> set ?averages. snd item \<noteq> NaN" by simp
  have ev: "sorted_rates ?averages = [(''B'', Finite 2), (''A'', Finite 1), (''C'', Finite 1)]"
    by (simp add: sorted_rates_def sorted_reverse_def)
  have t: "sorted_wrt (\<lambda>a b. float_le (snd b) (snd a)) (sorted_rates ?averages)
       \<and> (\<forall>v. filter (\<lambda>item. snd item = v) (sorted_rates ?averages)
               = filter (\<lambda>item. snd item = v) ?averages)"
    using ranking_descending_and_stable [OF h1 h2 h3] by blast
  then have "filter (\<lambda>item. snd item = Finite 1) (sorted_rates ?averages)
      = filter (\<lambda>item. snd item = Finite 1) ?averages"
    by blast
  then have f: "filter (\<lambda>item. snd item = Finite 1) (sorted_rates ?averages)
      = [(''A'', Finite 1), (''C'', Finite 1)]"
    by simp
  show ?thesis
    using h2 ev t f by blast
qed

text \<open>
  C7 as stated fails when an average is a NaN, which the rate string \<open>nan\<close> gives.  With
  the rates \<open>0\<close>, \<open>nan\<close> and \<open>2400000000000000000\<close> for three products the averages are
  \<open>0.0\<close>, NaN and a third of \<open>10.0\<close>; no average is \<open><\<close> the one after it, so the sort
  leaves the list as it is, and the ticker with the average \<open>0.0\<close> is ranked before the
  ticker with the greater average.
\<close>

theorem nan_average_ranking_not_descending:
  "process_funding_rates [(1, ''A''), (2, ''B''), (3, ''C'')]
      [JObj [(''timestamp'', JInt 5),
             (''funding_rates'', JObj [(''1'', JStr ''0''), (''2'', JStr ''nan''),
                                       (''3'', JStr ''2400000000000000000'')])]]
     = Inr [(''A'', [\<lparr> entry_timestamp = JInt 5, funding_rate = Finite 0 \<rparr>]),
            (''B'', [\<lparr> entry_timestamp = JInt 5, funding_rate = NaN \<rparr>]),
            (''C'', [\<lparr> entry_timestamp = JInt 5, funding_rate = Finite 10 \<rparr>])]
   \<and> average_rates [(''A'', [\<lparr> entry_timestamp = JInt 5, funding_rate = Finite 0 \<rparr>]),
                     (''B'', [\<lparr> entry_timestamp = JInt 5, funding_rate = NaN \<rparr>]),
                     (''C'', [\<lparr> entry_timestamp = JInt 5, funding_rate = Finite 10 \<rparr>])]
     = Inr [(''A'', Finite 0), (''B'', NaN), (''C'', Finite (7505999378950827 / 2 ^ 51))]
   \<and> sorted_rates [(''A'', Finite 0), (''B'', NaN), (''C'', Finite (7505999378950827 / 2 ^ 51))]
     = [(''A'', Finite 0), (''B'', NaN), (''C'', Finite (7505999378950827 / 2 ^ 51))]
   \<and> float_lt (Finite 0) (Finite (7505999378950827 / 2 ^ 51))"
proof -
  let ?m = "[(1 :: int, ''A''), (2, ''B''), (3, ''C'')]"
  have r0: "parse_raw_value (JStr ''0'') = Inr (Finite 0)"
    by (simp add: parse_raw_value_def py_float_zero)
  have rn: "parse_raw_value (JStr ''nan'') = Inr NaN"
    by (simp add: parse_raw_value_def py_float_nan)
  have rr: "parse_raw_value (JStr ''2400000000000000000'') = Inr (Finite 2400000000000000000)"
    by (simp add: parse_raw_value_def py_float_raw)
  have e1: "make_entry ?m (JInt 5) (''1'', JStr ''0'')
      = Inr (''A'', \<lparr> entry_timestamp = JInt 5, funding_rate = Finite 0 \<rparr>)"
    by (simp add: make_entry_def parse_prod_id_1 r0 compute_funding_rate_zero lookup_ticker_def
        mapping_get_def)
  have e2: "make_entry ?m (JInt 5) (''2'', JStr ''nan'')
      = Inr (''B'', \<lparr> entry_timestamp = JInt 5, funding_rate = NaN \<rparr>)"
    by (simp add: make_entry_def parse_prod_id_2 rn compute_funding_rate_nan lookup_ticker_def
        mapping_get_def)
  have e3: "make_entry ?m (JInt 5) (''3'', JStr ''2400000000000000000'')
      = Inr (''C'', \<lparr> entry_timestamp = JInt 5, funding_rate = Finite 10 \<rparr>)"
    by (simp add: make_entry_def parse_prod_id_3 rr compute_funding_rate_raw lookup_ticker_def
        mapping_get_def)
  have p: "process_funding_rates ?m
      [JObj [(''timestamp'', JInt 5),
             (''funding_rates'', JObj [(''1'', JStr ''0''), (''2'', JStr ''nan''),
                                       (''3'', JStr ''2400000000000000000'')])]]
     = Inr [(''A'', [\<lparr> entry_timestamp = JInt 5, funding_rate = Finite 0 \<rparr>]),
            (''B'', [\<lparr> entry_timestamp = JInt 5, funding_rate = NaN \<rparr>]),
            (''C'', [\<lparr> entry_timestamp = JInt 5, funding_rate = Finite 10 \<rparr>])]"
    by (simp add: process_funding_rates_def process_snapshot_def process_rate_def e1 e2 e3)
  have a: "average_rates [(''A'', [\<lparr> entry_timestamp = JInt 5, funding_rate = Finite 0 \<rparr>]),
                     (''B'', [\<lparr> entry_timestamp = JInt 5, funding_rate = NaN \<rparr>]),
                     (''C'', [\<lparr> entry_timestamp = JInt 5, funding_rate = Finite 10 \<rparr>])]
     = Inr [(''A'', Finite 0), (''B'', NaN), (''C'', Finite (7505999378950827 / 2 ^ 51))]"
    using round_double_third
    by (simp add: average_rates_def average_rate_step_def py_sum_def round_double_0 round_double_10)
  have s: "sorted_rates [(''A'', Finite 0), (''B'', NaN), (''C'', Finite (7505999378950827 / 2 ^ 51))]
     = [(''A'', Finite 0), (''B'', NaN), (''C'', Finite (7505999378950827 / 2 ^ 51))]"
    by (simp add: sorted_rates_def sorted_reverse_def)
  have f: "float_lt (Finite 0) (Finite (7505999378950827 / 2 ^ 51))" by simp
  show ?thesis
    using p a s f by (simp only: simp_thms)
qed

end
